theory Spec2Isabelle
  imports
    Main
    "HOL-Library.Char_ord"
    "HOL-Library.List_Lexorder"
    "HOL-Library.Product_Lexorder"
begin

section \<open>Paths, directory entries and the file-system collaborator\<close>

text \<open>
  A \<open>pathlib.Path\<close> is kept as the list of its components below the root, so that
  \<open>Path('/')\<close> is \<open>[]\<close>, \<open>p.parent\<close> drops the last component, \<open>p / name\<close> appends one
  and \<open>p.name\<close> is the last component (the empty string for the root).
  Strings are \<open>char list\<close>, a character being a code point below 256. On these
  \<open>str.lower()\<close> works character by character: it adds 32 to the upper-case letters,
  which are \<open>A\<close> to \<open>Z\<close> (65 to 90) and the accented capitals 192 to 214 and 216 to 222,
  and leaves every other code point alone. The white space that \<open>str.strip()\<close> removes
  is 9 to 13, 28 to 32, 133 and 160.
\<close>

type_synonym path = "string list"

definition parent :: "path \<Rightarrow> path" where
  "parent p = butlast p"

definition joinpath :: "path \<Rightarrow> string \<Rightarrow> path" where
  "joinpath p n = (if n = [] then p else p @ [n])"

definition path_name :: "path \<Rightarrow> string" where
  "path_name p = (if p = [] then [] else last p)"

definition lower_char :: "char \<Rightarrow> char" where
  "lower_char c =
     (let n = (of_char c :: nat)
      in if (65 \<le> n \<and> n \<le> 90) \<or> (192 \<le> n \<and> n \<le> 214) \<or> (216 \<le> n \<and> n \<le> 222)
         then char_of (n + 32) else c)"

definition lower :: "string \<Rightarrow> string" where
  "lower s = map lower_char s"

definition startswith :: "string \<Rightarrow> string \<Rightarrow> bool" where
  "startswith s p = (take (length p) s = p)"

definition endswith :: "string \<Rightarrow> string \<Rightarrow> bool" where
  "endswith s p = (length p \<le> length s \<and> drop (length s - length p) s = p)"

fun is_substring :: "string \<Rightarrow> string \<Rightarrow> bool" where
  "is_substring q [] = (q = [])"
| "is_substring q (c # cs) = (startswith (c # cs) q \<or> is_substring q cs)"

definition is_space :: "char \<Rightarrow> bool" where
  "is_space c =
     (let n = (of_char c :: nat)
      in (9 \<le> n \<and> n \<le> 13) \<or> (28 \<le> n \<and> n \<le> 32) \<or> n = 133 \<or> n = 160)"

definition strip :: "string \<Rightarrow> string" where
  "strip s = rev (dropWhile is_space (rev (dropWhile is_space s)))"

fun join :: "string \<Rightarrow> string list \<Rightarrow> string" where
  "join sep [] = []"
| "join sep [x] = x"
| "join sep (x # y # ys) = x @ sep @ join sep (y # ys)"

fun digits_of :: "nat \<Rightarrow> string" where
  "digits_of n =
     (if n < 10 then [char_of (48 + n)] else digits_of (n div 10) @ [char_of (48 + n mod 10)])"

text \<open>
  One element of \<open>self.files\<close>: the tuple \<open>(name, is_dir, st_size, st_mode, st_mtime)\<close>.
  The modification time is only carried along, never computed with.
\<close>

type_synonym file_info = "string \<times> bool \<times> int \<times> int \<times> int"

definition fi_name :: "file_info \<Rightarrow> string" where
  "fi_name x = fst x"

definition fi_is_dir :: "file_info \<Rightarrow> bool" where
  "fi_is_dir x = fst (snd x)"

text \<open>
  The exceptions of the file-system calls that the program tells apart, each with the
  text that \<open>str(e)\<close> gives.
\<close>

datatype exc = PermissionError string | OtherError string

datatype dir_read = Listed "string list" | Raised exc

text \<open>
  The calls into \<open>pathlib\<close> and \<open>shutil\<close> are the program's collaborator. They are taken
  as a record of functions over an arbitrary file-system value \<open>'fs\<close>:
  \<open>fs_iterdir\<close> gives the child names in the order the system enumerates them, or the
  exception raised when the directory is opened; \<open>fs_stat\<close> is \<open>None\<close> when \<open>stat()\<close>
  raises \<open>OSError\<close>; \<open>fs_is_dir\<close> and \<open>fs_exists\<close> give the answer of \<open>is_dir()\<close> and
  \<open>exists()\<close>, or the exception they raise (\<open>pathlib\<close> answers \<open>False\<close> for a missing
  path and raises every other \<open>OSError\<close> of the \<open>stat\<close> underneath, a refused permission
  among them); a mutating call returns the file system it leaves behind and the exception
  it raised, if any.
\<close>

record 'fs fileops =
  fs_iterdir :: "'fs \<Rightarrow> path \<Rightarrow> dir_read"
  fs_stat :: "'fs \<Rightarrow> path \<Rightarrow> (int \<times> int \<times> int) option"
  fs_is_dir :: "'fs \<Rightarrow> path \<Rightarrow> exc + bool"
  fs_exists :: "'fs \<Rightarrow> path \<Rightarrow> exc + bool"
  fs_copytree :: "'fs \<Rightarrow> path \<Rightarrow> path \<Rightarrow> 'fs \<times> exc option"
  fs_copy2 :: "'fs \<Rightarrow> path \<Rightarrow> path \<Rightarrow> 'fs \<times> exc option"
  fs_move :: "'fs \<Rightarrow> path \<Rightarrow> path \<Rightarrow> 'fs \<times> exc option"
  fs_rmtree :: "'fs \<Rightarrow> path \<Rightarrow> 'fs \<times> exc option"
  fs_unlink :: "'fs \<Rightarrow> path \<Rightarrow> 'fs \<times> exc option"

definition str_exc :: "exc \<Rightarrow> string" where
  "str_exc e = (case e of PermissionError m \<Rightarrow> m | OtherError m \<Rightarrow> m)"

section \<open>The state of the file manager\<close>

datatype action = Copy | Cut

record file_manager =
  current_path :: path
  selected_index :: int
  scroll_offset :: int
  files :: "file_info list"
  show_hidden :: bool
  clipboard :: "path list option"
  clipboard_action :: "action option"
  message :: string
  selected_files :: "int set"
  dual_panel_mode :: bool
  active_panel :: nat
  panel_paths :: "path list"
  panel_selected_index :: "int list"
  panel_scroll_offset :: "int list"
  panel_files :: "file_info list list"
  panel_selected_files :: "int set list"
  search_mode :: bool
  search_query :: string
  filter_mode :: bool
  filter_extension :: string
  original_files :: "file_info list"

text \<open>
  \<open>show_message\<close> also stamps the time of the message, which only the renderer reads
  to expire it; the time stamp is not part of the model.
\<close>

definition show_message :: "string \<Rightarrow> file_manager \<Rightarrow> file_manager" where
  "show_message m s = s\<lparr>message := m\<rparr>"

text \<open>The four panel lists always have the two slots \<open>__init__\<close> gives them.\<close>

definition panels_ok :: "file_manager \<Rightarrow> bool" where
  "panels_ok s \<longleftrightarrow>
     active_panel s < 2 \<and> length (panel_paths s) = 2 \<and> length (panel_selected_index s) = 2 \<and>
     length (panel_scroll_offset s) = 2 \<and> length (panel_files s) = 2 \<and>
     length (panel_selected_files s) = 2"

section \<open>Directory listing and refresh\<close>

text \<open>The sort key \<open>lambda x: (not x[1], x[0].lower())\<close>.\<close>

definition entry_key :: "file_info \<Rightarrow> bool \<times> string" where
  "entry_key x = (\<not> fi_is_dir x, lower (fi_name x))"

text \<open>
  One entry of the loop over \<open>iterdir()\<close>, shared by both refresh functions. When
  \<open>stat()\<close> fails, or \<open>is_dir()\<close> raises after it, the handler keeps the entry with zeros
  and asks \<open>is_dir()\<close> again, outside any \<open>try\<close> of its own: what that call raises
  leaves the loop.
\<close>

definition read_entry :: "'fs fileops \<Rightarrow> 'fs \<Rightarrow> path \<Rightarrow> string \<Rightarrow> exc + file_info" where
  "read_entry ops fs p n =
     (let entry = joinpath p n;
          handler = (case fs_is_dir ops fs entry of
                       Inl e \<Rightarrow> Inl e
                     | Inr d \<Rightarrow> Inr (n, d, 0, 0, 0))
      in case fs_stat ops fs entry of
           None \<Rightarrow> handler
         | Some (sz, md, mt) \<Rightarrow>
             (case fs_is_dir ops fs entry of
                Inl e \<Rightarrow> handler
              | Inr d \<Rightarrow> Inr (n, d, sz, md, mt)))"

text \<open>
  The loop itself: hidden names are skipped unless \<open>show_hidden\<close>. The result is the
  list \<open>entries\<close> as far as it was filled, and the exception that ended the loop, if any.
\<close>

fun collect_entries ::
  "'fs fileops \<Rightarrow> 'fs \<Rightarrow> bool \<Rightarrow> path \<Rightarrow> string list \<Rightarrow> file_info list \<times> exc option" where
  "collect_entries ops fs hid p [] = ([], None)"
| "collect_entries ops fs hid p (n # ns) =
     (if \<not> hid \<and> startswith n ''.'' then collect_entries ops fs hid p ns
      else (case read_entry ops fs p n of
              Inl e \<Rightarrow> ([], Some e)
            | Inr x \<Rightarrow>
                (case collect_entries ops fs hid p ns of
                   (xs, r) \<Rightarrow> (x # xs, r))))"

text \<open>The statement \<open>for entry in path.iterdir(): ...\<close>, with the opening of the directory.\<close>

definition read_dir ::
  "'fs fileops \<Rightarrow> 'fs \<Rightarrow> bool \<Rightarrow> path \<Rightarrow> file_info list \<times> exc option" where
  "read_dir ops fs hid p =
     (case fs_iterdir ops fs p of
        Raised e \<Rightarrow> ([], Some e)
      | Listed ns \<Rightarrow> collect_entries ops fs hid p ns)"

definition clamp_index :: "int \<Rightarrow> nat \<Rightarrow> int" where
  "clamp_index i n = (if i \<ge> int n then max 0 (int n - 1) else i)"

text \<open>
  \<open>refresh_panel_files\<close> passes over a \<open>PermissionError\<close> of the loop and goes on with
  the entries read so far; any other exception ends in \<open>except Exception\<close>, which only
  empties the panel's list.
\<close>

definition refresh_panel_files :: "'fs fileops \<Rightarrow> 'fs \<Rightarrow> nat \<Rightarrow> file_manager \<Rightarrow> file_manager" where
  "refresh_panel_files ops fs panel_idx s =
     (case read_dir ops fs (show_hidden s) (panel_paths s ! panel_idx) of
        (entries, Some (OtherError e)) \<Rightarrow> s\<lparr>panel_files := (panel_files s)[panel_idx := []]\<rparr>
      | (entries, r) \<Rightarrow>
          (let fl = sort_key entry_key entries
           in s\<lparr>panel_files := (panel_files s)[panel_idx := fl],
                panel_selected_index := (panel_selected_index s)
                  [panel_idx := clamp_index (panel_selected_index s ! panel_idx) (length fl)],
                panel_selected_files := (panel_selected_files s)[panel_idx := {}]\<rparr>))"

definition clear_overlay_fields :: "file_manager \<Rightarrow> file_manager" where
  "clear_overlay_fields s =
     (if search_mode s \<or> filter_mode s
      then s\<lparr>original_files := [], search_mode := False, filter_mode := False,
             search_query := [], filter_extension := []\<rparr>
      else s)"

text \<open>
  In single-panel mode \<open>refresh_files\<close> empties \<open>self.files\<close> first; an exception of the
  loop leaves it empty, shows a message and skips the rest of the function.
\<close>

definition refresh_files :: "'fs fileops \<Rightarrow> 'fs \<Rightarrow> file_manager \<Rightarrow> file_manager" where
  "refresh_files ops fs s =
     (if dual_panel_mode s then
        (let s2 = refresh_panel_files ops fs 1 (refresh_panel_files ops fs 0 s)
         in s2\<lparr>files := panel_files s2 ! active_panel s2\<rparr>)
      else
        (case read_dir ops fs (show_hidden s) (current_path s) of
           (entries, Some (PermissionError m)) \<Rightarrow>
             show_message ''Permission denied'' (s\<lparr>files := []\<rparr>)
         | (entries, Some (OtherError e)) \<Rightarrow>
             show_message (''Error reading directory: '' @ e) (s\<lparr>files := []\<rparr>)
         | (entries, None) \<Rightarrow>
             (let fl = sort_key entry_key entries
              in clear_overlay_fields
                   (s\<lparr>files := fl,
                      selected_index := clamp_index (selected_index s) (length fl),
                      selected_files := {}\<rparr>))))"

section \<open>Panels, cursor movement and directory navigation\<close>

text \<open>
  An uncaught Python exception ends the program; a command that can raise one returns
  \<open>Inl\<close> of it. \<open>py_nth\<close> is list indexing with an arbitrary integer: a negative index
  counts from the end and an index out of range raises \<open>IndexError\<close>.
\<close>

datatype crash = IndexError | Uncaught exc

definition py_nth :: "'a list \<Rightarrow> int \<Rightarrow> crash + 'a" where
  "py_nth xs i =
     (if 0 \<le> i \<and> i < int (length xs) then Inr (xs ! nat i)
      else if i < 0 \<and> - int (length xs) \<le> i then Inr (xs ! nat (int (length xs) + i))
      else Inl IndexError)"

definition sync_to_panels :: "file_manager \<Rightarrow> file_manager" where
  "sync_to_panels s =
     s\<lparr>panel_paths := (panel_paths s)[active_panel s := current_path s],
       panel_selected_index := (panel_selected_index s)[active_panel s := selected_index s],
       panel_scroll_offset := (panel_scroll_offset s)[active_panel s := scroll_offset s],
       panel_selected_files := (panel_selected_files s)[active_panel s := selected_files s]\<rparr>"

definition sync_from_panels :: "file_manager \<Rightarrow> file_manager" where
  "sync_from_panels s =
     (let s1 = s\<lparr>current_path := panel_paths s ! active_panel s,
                  selected_index := panel_selected_index s ! active_panel s,
                  scroll_offset := panel_scroll_offset s ! active_panel s,
                  selected_files := panel_selected_files s ! active_panel s\<rparr>
      in if dual_panel_mode s1 then s1\<lparr>files := panel_files s1 ! active_panel s1\<rparr> else s1)"

definition switch_panel :: "file_manager \<Rightarrow> file_manager" where
  "switch_panel s =
     (if dual_panel_mode s then
        (let s1 = sync_to_panels s;
             s2 = s1\<lparr>active_panel := 1 - active_panel s1\<rparr>
         in s2\<lparr>current_path := panel_paths s2 ! active_panel s2,
               selected_index := panel_selected_index s2 ! active_panel s2,
               scroll_offset := panel_scroll_offset s2 ! active_panel s2,
               selected_files := panel_selected_files s2 ! active_panel s2,
               files := panel_files s2 ! active_panel s2\<rparr>)
      else s)"

definition toggle_dual_panel :: "'fs fileops \<Rightarrow> 'fs \<Rightarrow> file_manager \<Rightarrow> file_manager" where
  "toggle_dual_panel ops fs s =
     (if \<not> dual_panel_mode s then
        (let s1 = sync_to_panels (s\<lparr>dual_panel_mode := True\<rparr>);
             other_panel = 1 - active_panel s1;
             s2 = s1\<lparr>panel_paths := (panel_paths s1)[other_panel := current_path s1],
                     panel_selected_index := (panel_selected_index s1)[other_panel := 0],
                     panel_scroll_offset := (panel_scroll_offset s1)[other_panel := 0],
                     panel_selected_files := (panel_selected_files s1)[other_panel := {}]\<rparr>;
             s3 = refresh_panel_files ops fs 1 (refresh_panel_files ops fs 0 s2)
         in show_message ''Dual panel mode ON - TAB to switch panels''
              (s3\<lparr>files := panel_files s3 ! active_panel s3\<rparr>))
      else
        refresh_files ops fs
          (show_message ''Single panel mode'' (sync_from_panels (s\<lparr>dual_panel_mode := False\<rparr>))))"

text \<open>\<open>height\<close> is the terminal height that \<open>getmaxyx()\<close> reports.\<close>

definition adjust_scroll :: "int \<Rightarrow> file_manager \<Rightarrow> file_manager" where
  "adjust_scroll height s =
     (let visible_height = height - 3;
          s1 = (if selected_index s < scroll_offset s then s\<lparr>scroll_offset := selected_index s\<rparr>
                else if selected_index s \<ge> scroll_offset s + visible_height
                then s\<lparr>scroll_offset := selected_index s - visible_height + 1\<rparr>
                else s)
      in if dual_panel_mode s1
         then s1\<lparr>panel_scroll_offset := (panel_scroll_offset s1)[active_panel s1 := scroll_offset s1]\<rparr>
         else s1)"

definition store_index :: "file_manager \<Rightarrow> file_manager" where
  "store_index s =
     (if dual_panel_mode s
      then s\<lparr>panel_selected_index := (panel_selected_index s)[active_panel s := selected_index s]\<rparr>
      else s)"

definition navigate_up :: "int \<Rightarrow> file_manager \<Rightarrow> file_manager" where
  "navigate_up height s =
     (if selected_index s > 0
      then adjust_scroll height (store_index (s\<lparr>selected_index := selected_index s - 1\<rparr>))
      else s)"

definition navigate_down :: "int \<Rightarrow> file_manager \<Rightarrow> file_manager" where
  "navigate_down height s =
     (if selected_index s < int (length (files s)) - 1
      then adjust_scroll height (store_index (s\<lparr>selected_index := selected_index s + 1\<rparr>))
      else s)"

definition store_top :: "file_manager \<Rightarrow> file_manager" where
  "store_top s =
     (if dual_panel_mode s
      then s\<lparr>panel_paths := (panel_paths s)[active_panel s := current_path s],
             panel_selected_index := (panel_selected_index s)[active_panel s := 0],
             panel_scroll_offset := (panel_scroll_offset s)[active_panel s := 0]\<rparr>
      else s)"

definition navigate_left :: "'fs fileops \<Rightarrow> 'fs \<Rightarrow> file_manager \<Rightarrow> file_manager" where
  "navigate_left ops fs s =
     (let s1 = (if dual_panel_mode s then sync_to_panels s else s);
          s2 = (if current_path s1 \<noteq> []
                then s1\<lparr>current_path := parent (current_path s1),
                        selected_index := 0, scroll_offset := 0\<rparr>
                else s1)
      in refresh_files ops fs (store_top s2))"

text \<open>
  \<open>fs_launch\<close> stands for \<open>subprocess.run(['xdg-open', ...])\<close>: the message of the
  exception it raises, if any.
\<close>

definition open_file :: "(path \<Rightarrow> string option) \<Rightarrow> file_manager \<Rightarrow> crash + file_manager" where
  "open_file fs_launch s =
     (if files s = [] \<or> selected_index s \<ge> int (length (files s)) then Inr s
      else (case py_nth (files s) (selected_index s) of
              Inl c \<Rightarrow> Inl c
            | Inr selected_file \<Rightarrow>
                if fi_is_dir selected_file then Inr s
                else (case fs_launch (joinpath (current_path s) (fi_name selected_file)) of
                        None \<Rightarrow> Inr (show_message (''Opening '' @ fi_name selected_file @ ''...'') s)
                      | Some e \<Rightarrow> Inr (show_message (''Error opening file: '' @ e) s))))"

definition navigate_right ::
  "'fs fileops \<Rightarrow> (path \<Rightarrow> string option) \<Rightarrow> 'fs \<Rightarrow> file_manager \<Rightarrow> crash + file_manager" where
  "navigate_right ops fs_launch fs s =
     (if files s = [] then Inr s
      else
        (let s1 = (if dual_panel_mode s then sync_to_panels s else s)
         in case py_nth (files s1) (selected_index s1) of
              Inl c \<Rightarrow> Inl c
            | Inr selected_file \<Rightarrow>
                if fi_is_dir selected_file then
                  (let new_path = joinpath (current_path s1) (fi_name selected_file)
                   in case fs_iterdir ops fs new_path of
                        Raised (PermissionError m) \<Rightarrow> Inr (show_message ''Permission denied'' s1)
                      | Raised (OtherError e) \<Rightarrow> Inl (Uncaught (OtherError e))
                      | Listed ns \<Rightarrow>
                          Inr (refresh_files ops fs
                                 (store_top (s1\<lparr>current_path := new_path,
                                               selected_index := 0, scroll_offset := 0\<rparr>))))
                else open_file fs_launch s1))"

definition enter_directory ::
  "'fs fileops \<Rightarrow> (path \<Rightarrow> string option) \<Rightarrow> 'fs \<Rightarrow> file_manager \<Rightarrow> crash + file_manager" where
  "enter_directory ops fs_launch fs s =
     (if files s = [] then Inr s
      else (case py_nth (files s) (selected_index s) of
              Inl c \<Rightarrow> Inl c
            | Inr selected_file \<Rightarrow>
                if fi_is_dir selected_file then navigate_right ops fs_launch fs s
                else open_file fs_launch s))"

section \<open>Multi-selection\<close>

definition toggle_selection :: "file_manager \<Rightarrow> crash + file_manager" where
  "toggle_selection s =
     (if files s = [] \<or> selected_index s \<ge> int (length (files s)) then Inr s
      else (case py_nth (files s) (selected_index s) of
              Inl c \<Rightarrow> Inl c
            | Inr selected_file \<Rightarrow>
                if selected_index s \<in> selected_files s
                then Inr (show_message (''Deselected: '' @ fi_name selected_file)
                            (s\<lparr>selected_files := selected_files s - {selected_index s}\<rparr>))
                else Inr (show_message (''Selected: '' @ fi_name selected_file)
                            (s\<lparr>selected_files := insert (selected_index s) (selected_files s)\<rparr>))))"

definition clear_selection :: "file_manager \<Rightarrow> file_manager" where
  "clear_selection s =
     (let count = card (selected_files s)
      in show_message
           (if count > 0 then ''Cleared '' @ digits_of count @ '' selections''
            else ''No files selected'')
           (s\<lparr>selected_files := {}\<rparr>))"

definition select_all :: "file_manager \<Rightarrow> file_manager" where
  "select_all s =
     (let fresh = {0..<int (length (files s))} - selected_files s;
          count = card fresh
      in show_message
           (if count > 0 then ''Selected '' @ digits_of count @ '' additional files''
            else ''All files already selected'')
           (s\<lparr>selected_files := selected_files s \<union> fresh\<rparr>))"

definition toggle_hidden :: "'fs fileops \<Rightarrow> 'fs \<Rightarrow> file_manager \<Rightarrow> file_manager" where
  "toggle_hidden ops fs s =
     (let s1 = refresh_files ops fs (s\<lparr>show_hidden := \<not> show_hidden s\<rparr>)
      in show_message (''Hidden files: '' @ (if show_hidden s1 then ''ON'' else ''OFF'')) s1)"

text \<open>The \<open>F5\<close> branch of the main loop.\<close>

definition key_f5 :: "'fs fileops \<Rightarrow> 'fs \<Rightarrow> file_manager \<Rightarrow> file_manager" where
  "key_f5 ops fs s = show_message ''Refreshed'' (refresh_files ops fs s)"

section \<open>Search and filter\<close>

definition matches_overlay :: "file_manager \<Rightarrow> file_info \<Rightarrow> bool" where
  "matches_overlay s file_info =
     (if search_mode s \<and> search_query s \<noteq> []
      then is_substring (search_query s) (lower (fi_name file_info))
      else if filter_mode s \<and> filter_extension s \<noteq> []
      then endswith (lower (fi_name file_info)) (filter_extension s)
      else False)"

definition store_cleared :: "file_manager \<Rightarrow> file_manager" where
  "store_cleared s =
     (if dual_panel_mode s
      then s\<lparr>panel_files := (panel_files s)[active_panel s := files s],
             panel_selected_index := (panel_selected_index s)[active_panel s := 0],
             panel_scroll_offset := (panel_scroll_offset s)[active_panel s := 0],
             panel_selected_files := (panel_selected_files s)[active_panel s := {}]\<rparr>
      else s)"

definition apply_search_filter :: "file_manager \<Rightarrow> file_manager" where
  "apply_search_filter s =
     (let s1 = (if original_files s = [] then s\<lparr>original_files := files s\<rparr> else s);
          filtered_files = filter (matches_overlay s1) (original_files s1)
      in store_cleared
           (s1\<lparr>files := filtered_files, selected_index := 0, scroll_offset := 0,
               selected_files := {}\<rparr>))"

definition clear_search_filter :: "file_manager \<Rightarrow> file_manager" where
  "clear_search_filter s =
     (let s1 = (if original_files s \<noteq> []
                then s\<lparr>files := original_files s, original_files := []\<rparr> else s)
      in show_message ''Search/filter cleared''
           (store_cleared
              (s1\<lparr>search_mode := False, filter_mode := False, search_query := [],
                  filter_extension := [], selected_index := 0, scroll_offset := 0,
                  selected_files := {}\<rparr>)))"

text \<open>
  \<open>start_search\<close> and \<open>start_filter\<close> take what \<open>get_dialog_input\<close> returned: \<open>None\<close>
  after ESC, the typed string after Enter.
\<close>

definition start_search :: "string option \<Rightarrow> file_manager \<Rightarrow> file_manager" where
  "start_search answer s =
     (case answer of
        None \<Rightarrow> show_message ''Search cancelled'' s
      | Some search_query' \<Rightarrow>
          if strip search_query' \<noteq> []
          then show_message (''Searching for: '' @ search_query')
                 (apply_search_filter
                    (s\<lparr>search_query := lower search_query', search_mode := True,
                       filter_mode := False\<rparr>))
          else clear_search_filter s)"

definition start_filter :: "string option \<Rightarrow> file_manager \<Rightarrow> file_manager" where
  "start_filter answer s =
     (case answer of
        None \<Rightarrow> show_message ''Filter cancelled'' s
      | Some filter_ext \<Rightarrow>
          if strip filter_ext \<noteq> []
          then (let e = strip (lower filter_ext);
                    e' = (if \<not> startswith e ''.'' then ''.'' @ e else e)
                in show_message (''Filtering by: '' @ e')
                     (apply_search_filter
                        (s\<lparr>filter_extension := e', filter_mode := True, search_mode := False\<rparr>)))
          else clear_search_filter s)"

section \<open>The modal text input\<close>

text \<open>
  The key codes of the curses library that \<open>get_dialog_input\<close> compares with.
\<close>

definition KEY_BACKSPACE :: int where "KEY_BACKSPACE = 263"
definition KEY_LEFT :: int where "KEY_LEFT = 260"
definition KEY_RIGHT :: int where "KEY_RIGHT = 261"
definition KEY_HOME :: int where "KEY_HOME = 262"
definition KEY_END :: int where "KEY_END = 360"
definition KEY_ENTER :: int where "KEY_ENTER = 343"

text \<open>Python slices \<open>xs[:i]\<close> and \<open>xs[i:]\<close> for an arbitrary integer \<open>i\<close>.\<close>

definition slice_to :: "'a list \<Rightarrow> int \<Rightarrow> 'a list" where
  "slice_to xs i = (if i < 0 then take (nat (int (length xs) + i)) xs else take (nat i) xs)"

definition slice_from :: "'a list \<Rightarrow> int \<Rightarrow> 'a list" where
  "slice_from xs i = (if i < 0 then drop (nat (int (length xs) + i)) xs else drop (nat i) xs)"

text \<open>
  \<open>get_dialog_input\<close> blocks on \<open>getch()\<close> until ESC or Enter arrives. The keys pressed
  are given as a list; the result is \<open>None\<close> while the routine is still waiting at the end
  of the list, \<open>Some None\<close> when it returned Python's \<open>None\<close> and \<open>Some (Some str)\<close>
  when it returned a string. Drawing the input line changes no state.
\<close>

fun dialog_loop :: "int \<Rightarrow> string \<Rightarrow> int \<Rightarrow> int list \<Rightarrow> string option option" where
  "dialog_loop max_length input_str cursor_pos [] = None"
| "dialog_loop max_length input_str cursor_pos (key # keys) =
     (if key = 27 then Some None
      else if key = 10 \<or> key = 13 \<or> key = KEY_ENTER then Some (Some input_str)
      else if key = KEY_BACKSPACE \<or> key = 127 \<or> key = 8 then
        (if cursor_pos > 0
         then dialog_loop max_length
                (slice_to input_str (cursor_pos - 1) @ slice_from input_str cursor_pos)
                (cursor_pos - 1) keys
         else dialog_loop max_length input_str cursor_pos keys)
      else if key = KEY_LEFT then
        (if cursor_pos > 0 then dialog_loop max_length input_str (cursor_pos - 1) keys
         else dialog_loop max_length input_str cursor_pos keys)
      else if key = KEY_RIGHT then
        (if cursor_pos < int (length input_str)
         then dialog_loop max_length input_str (cursor_pos + 1) keys
         else dialog_loop max_length input_str cursor_pos keys)
      else if key = KEY_HOME \<or> key = 1 then dialog_loop max_length input_str 0 keys
      else if key = KEY_END \<or> key = 5
      then dialog_loop max_length input_str (int (length input_str)) keys
      else if 32 \<le> key \<and> key \<le> 126 then
        (if int (length input_str) < max_length - 1
         then dialog_loop max_length
                (slice_to input_str cursor_pos @ [char_of key] @ slice_from input_str cursor_pos)
                (cursor_pos + 1) keys
         else dialog_loop max_length input_str cursor_pos keys)
      else dialog_loop max_length input_str cursor_pos keys)"

definition get_dialog_input :: "int \<Rightarrow> int list \<Rightarrow> string option option" where
  "get_dialog_input max_length keys = dialog_loop max_length [] 0 keys"

section \<open>Clipboard, paste and delete\<close>

text \<open>
  The targets of a multi-selection command: the loop
  \<open>for idx in self.selected_files: if idx < len(self.files): ...\<close>, each target being
  \<open>(idx, filename, self.current_path / filename)\<close>.
\<close>

fun gather_targets :: "path \<Rightarrow> file_info list \<Rightarrow> int list \<Rightarrow> crash + (int \<times> string \<times> path) list" where
  "gather_targets cur fl [] = Inr []"
| "gather_targets cur fl (idx # rest) =
     (if idx < int (length fl) then
        (case py_nth fl idx of
           Inl c \<Rightarrow> Inl c
         | Inr f \<Rightarrow>
             (case gather_targets cur fl rest of
                Inl c \<Rightarrow> Inl c
              | Inr ts \<Rightarrow> Inr ((idx, fi_name f, joinpath cur (fi_name f)) # ts)))
      else gather_targets cur fl rest)"

text \<open>
  Python leaves the iteration order of a set open; the model visits the selected indices
  in ascending order. No property below depends on that order.
\<close>

definition selection_targets :: "file_manager \<Rightarrow> crash + (int \<times> string \<times> path) list" where
  "selection_targets s =
     gather_targets (current_path s) (files s) (sorted_list_of_set (selected_files s))"

definition stage :: "action \<Rightarrow> string \<Rightarrow> file_manager \<Rightarrow> crash + file_manager" where
  "stage act verb s =
     (if selected_files s \<noteq> {} then
        (case selection_targets s of
           Inl c \<Rightarrow> Inl c
         | Inr ts \<Rightarrow>
             Inr (show_message (verb @ '' '' @ digits_of (length ts) @ '' file(s) to clipboard'')
                    (s\<lparr>clipboard := Some (map (\<lambda>t. snd (snd t)) ts),
                       clipboard_action := Some act\<rparr>)))
      else if files s = [] \<or> selected_index s \<ge> int (length (files s)) then Inr s
      else (case py_nth (files s) (selected_index s) of
              Inl c \<Rightarrow> Inl c
            | Inr selected_file \<Rightarrow>
                Inr (show_message (verb @ '' '' @ fi_name selected_file)
                       (s\<lparr>clipboard := Some [joinpath (current_path s) (fi_name selected_file)],
                          clipboard_action := Some act\<rparr>))))"

definition copy_file :: "file_manager \<Rightarrow> crash + file_manager" where
  "copy_file s = stage Copy ''Copied'' s"

definition cut_file :: "file_manager \<Rightarrow> crash + file_manager" where
  "cut_file s = stage Cut ''Cut'' s"

text \<open>The body of the \<open>try\<close> in \<open>paste_file\<close> for one source.\<close>

definition paste_one :: "'fs fileops \<Rightarrow> action option \<Rightarrow> 'fs \<Rightarrow> path \<Rightarrow> path \<Rightarrow> 'fs \<times> exc option" where
  "paste_one ops act fs source dest =
     (case act of
        Some Copy \<Rightarrow>
          (case fs_is_dir ops fs source of
             Inl e \<Rightarrow> (fs, Some e)
           | Inr d \<Rightarrow>
               if d then fs_copytree ops fs source dest else fs_copy2 ops fs source dest)
      | Some Cut \<Rightarrow> fs_move ops fs source dest
      | None \<Rightarrow> (fs, None))"

text \<open>
  The loop \<open>for source in sources\<close>, threading the file system, \<open>pasted_count\<close> and
  \<open>errors\<close>. The test \<open>dest.exists()\<close> stands outside the \<open>try\<close>: an exception it raises
  leaves \<open>paste_file\<close> uncaught, with the file system as the earlier items left it.
\<close>

fun paste_loop ::
  "'fs fileops \<Rightarrow> path \<Rightarrow> action option \<Rightarrow> path list \<Rightarrow> 'fs \<times> nat \<times> string list
     \<Rightarrow> crash \<times> 'fs + 'fs \<times> nat \<times> string list" where
  "paste_loop ops cur act [] st = Inr st"
| "paste_loop ops cur act (source # rest) (fs, pasted_count, errors) =
     (let dest = joinpath cur (path_name source)
      in case fs_exists ops fs dest of
           Inl e \<Rightarrow> Inl (Uncaught e, fs)
         | Inr found \<Rightarrow>
             if found
             then paste_loop ops cur act rest
                    (fs, pasted_count, errors @ [path_name source @ '' already exists''])
             else (case paste_one ops act fs source dest of
                     (fs', None) \<Rightarrow> paste_loop ops cur act rest (fs', pasted_count + 1, errors)
                   | (fs', Some e) \<Rightarrow>
                       paste_loop ops cur act rest
                         (fs', pasted_count, errors @ [path_name source @ '': '' @ str_exc e])))"

definition errors_message :: "nat \<Rightarrow> string list \<Rightarrow> string" where
  "errors_message cap errors =
     ''Errors: '' @ join ''; '' (take cap errors) @ (if length errors > cap then ''...'' else [])"

definition paste_file ::
  "'fs fileops \<Rightarrow> 'fs \<times> file_manager \<Rightarrow> crash \<times> 'fs + 'fs \<times> file_manager" where
  "paste_file ops w =
     (case w of (fs, s) \<Rightarrow>
        (case clipboard s of
           None \<Rightarrow> Inr (fs, show_message ''Nothing to paste'' s)
         | Some [] \<Rightarrow> Inr (fs, show_message ''Nothing to paste'' s)
         | Some sources \<Rightarrow>
             (case paste_loop ops (current_path s) (clipboard_action s) sources (fs, 0, []) of
                Inl c \<Rightarrow> Inl c
              | Inr (fs', pasted_count, errors) \<Rightarrow>
                  (let s1 = (if clipboard_action s = Some Cut \<and> pasted_count > 0
                             then s\<lparr>clipboard := None, clipboard_action := None\<rparr> else s);
                       s2 = (if pasted_count > 0
                             then show_message
                                    ((if clipboard_action s1 = Some Copy then ''Copied'' else ''Moved'')
                                       @ '' '' @ digits_of pasted_count @ '' file(s)'') s1
                             else s1);
                       s3 = (if errors \<noteq> [] then show_message (errors_message 3 errors) s2 else s2)
                   in Inr (fs', refresh_files ops fs' s3)))))"

text \<open>
  \<open>delete_file\<close>. Before the first prompt \<open>is_dir()\<close> is asked of a single target, to
  word the prompt; the first loop after the confirmation looks for non-empty
  directories. Both stand outside any \<open>try\<close>, so an exception of \<open>is_dir()\<close> or
  \<open>iterdir()\<close> there leaves the function. In the deleting loop \<open>is_dir()\<close> is inside
  the \<open>try\<close>.
\<close>

definition delete_targets :: "file_manager \<Rightarrow> crash + (int \<times> string \<times> path) list" where
  "delete_targets s =
     (if selected_files s \<noteq> {} then selection_targets s
      else if files s = [] \<or> selected_index s \<ge> int (length (files s)) then Inr []
      else (case py_nth (files s) (selected_index s) of
              Inl c \<Rightarrow> Inl c
            | Inr selected_file \<Rightarrow>
                Inr [(selected_index s, fi_name selected_file,
                      joinpath (current_path s) (fi_name selected_file))]))"

definition prompt_raises :: "'fs fileops \<Rightarrow> 'fs \<Rightarrow> (int \<times> string \<times> path) list \<Rightarrow> exc option" where
  "prompt_raises ops fs files_to_delete =
     (case files_to_delete of
        [(idx, filename, filepath)] \<Rightarrow>
          (case fs_is_dir ops fs filepath of Inl e \<Rightarrow> Some e | Inr d \<Rightarrow> None)
      | _ \<Rightarrow> None)"

fun non_empty_dirs :: "'fs fileops \<Rightarrow> 'fs \<Rightarrow> (int \<times> string \<times> path) list \<Rightarrow> crash + string list" where
  "non_empty_dirs ops fs [] = Inr []"
| "non_empty_dirs ops fs ((idx, filename, filepath) # rest) =
     (case fs_is_dir ops fs filepath of
        Inl e \<Rightarrow> Inl (Uncaught e)
      | Inr d \<Rightarrow>
          if d then
            (case fs_iterdir ops fs filepath of
               Raised e \<Rightarrow> Inl (Uncaught e)
             | Listed ns \<Rightarrow>
                 (case non_empty_dirs ops fs rest of
                    Inl c \<Rightarrow> Inl c
                  | Inr ds \<Rightarrow> Inr (if ns \<noteq> [] then filename # ds else ds)))
          else non_empty_dirs ops fs rest)"

fun delete_loop ::
  "'fs fileops \<Rightarrow> (int \<times> string \<times> path) list \<Rightarrow> 'fs \<times> nat \<times> string list
     \<Rightarrow> 'fs \<times> nat \<times> string list" where
  "delete_loop ops [] st = st"
| "delete_loop ops ((idx, filename, filepath) # rest) (fs, deleted_count, errors) =
     (case (case fs_is_dir ops fs filepath of
              Inl e \<Rightarrow> (fs, Some e)
            | Inr d \<Rightarrow> if d then fs_rmtree ops fs filepath else fs_unlink ops fs filepath) of
        (fs', None) \<Rightarrow> delete_loop ops rest (fs', deleted_count + 1, errors)
      | (fs', Some (PermissionError m)) \<Rightarrow>
          delete_loop ops rest (fs', deleted_count, errors @ [filename @ '': Permission denied''])
      | (fs', Some (OtherError m)) \<Rightarrow>
          delete_loop ops rest (fs', deleted_count, errors @ [filename @ '': '' @ m]))"

definition is_yes :: "int \<Rightarrow> bool" where
  "is_yes key \<longleftrightarrow> key = 121 \<or> key = 89"

text \<open>
  \<open>key\<close> is the answer to the first prompt and \<open>key2\<close> the answer to the second, which is
  only asked for when some target is a non-empty directory.
\<close>

definition delete_file ::
  "'fs fileops \<Rightarrow> int \<Rightarrow> int \<Rightarrow> 'fs \<times> file_manager \<Rightarrow> crash + 'fs \<times> file_manager" where
  "delete_file ops key key2 w =
     (case w of (fs, s) \<Rightarrow>
        (case delete_targets s of
           Inl c \<Rightarrow> Inl c
         | Inr files_to_delete \<Rightarrow>
             if files_to_delete = [] then Inr (fs, s)
             else
               (case prompt_raises ops fs files_to_delete of
                  Some e \<Rightarrow> Inl (Uncaught e)
                | None \<Rightarrow>
                    if is_yes key then
                      (case non_empty_dirs ops fs files_to_delete of
                         Inl c \<Rightarrow> Inl c
                       | Inr ds \<Rightarrow>
                           if ds \<noteq> [] \<and> \<not> is_yes key2
                           then Inr (fs, show_message ''Delete cancelled'' s)
                           else
                             (case delete_loop ops files_to_delete (fs, 0, []) of
                                (fs', deleted_count, errors) \<Rightarrow>
                                  (let s1 = s\<lparr>selected_files := {}\<rparr>;
                                       s2 = (if deleted_count > 0
                                             then show_message
                                                    (''Deleted '' @ digits_of deleted_count
                                                       @ '' file(s)'') s1
                                             else s1);
                                       s3 = (if errors \<noteq> []
                                             then show_message (errors_message 2 errors) s2
                                             else s2);
                                       s4 = s3\<lparr>selected_index :=
                                                 clamp_index (selected_index s3)
                                                   (length (files s3))\<rparr>
                                   in Inr (fs', refresh_files ops fs' s4))))
                    else Inr (fs, show_message ''Delete cancelled'' s))))"

section \<open>Start-up\<close>

text \<open>\<open>__init__\<close> for the working directory \<open>cwd\<close>.\<close>

definition fresh :: "path \<Rightarrow> file_manager" where
  "fresh cwd =
     \<lparr>current_path = cwd, selected_index = 0, scroll_offset = 0, files = [],
      show_hidden = False, clipboard = None, clipboard_action = None, message = [],
      selected_files = {}, dual_panel_mode = False, active_panel = 0,
      panel_paths = [cwd, cwd], panel_selected_index = [0, 0], panel_scroll_offset = [0, 0],
      panel_files = [[], []], panel_selected_files = [{}, {}],
      search_mode = False, search_query = [], filter_mode = False, filter_extension = [],
      original_files = []\<rparr>"

definition init :: "'fs fileops \<Rightarrow> 'fs \<Rightarrow> path \<Rightarrow> file_manager" where
  "init ops fs cwd = refresh_files ops fs (sync_to_panels (fresh cwd))"

section \<open>Properties of states\<close>

text \<open>The cursor of the working panel is inside its list, or 0 when the list is empty.\<close>

definition index_ok :: "file_manager \<Rightarrow> bool" where
  "index_ok s \<longleftrightarrow>
     0 \<le> selected_index s \<and> selected_index s \<le> max 0 (int (length (files s)) - 1)"

text \<open>The same for the stored cursor of panel \<open>i\<close> in dual mode.\<close>

definition panel_index_ok :: "file_manager \<Rightarrow> nat \<Rightarrow> bool" where
  "panel_index_ok s i \<longleftrightarrow>
     0 \<le> panel_selected_index s ! i \<and>
     panel_selected_index s ! i \<le> max 0 (int (length (panel_files s ! i)) - 1)"

text \<open>Two states agree on everything stored for panel \<open>i\<close>.\<close>

definition same_panel :: "nat \<Rightarrow> file_manager \<Rightarrow> file_manager \<Rightarrow> bool" where
  "same_panel i s s' \<longleftrightarrow>
     panel_paths s' ! i = panel_paths s ! i \<and>
     panel_files s' ! i = panel_files s ! i \<and>
     panel_selected_index s' ! i = panel_selected_index s ! i \<and>
     panel_scroll_offset s' ! i = panel_scroll_offset s ! i \<and>
     panel_selected_files s' ! i = panel_selected_files s ! i"

text \<open>
  \<open>refresh_panel_files\<close> for panel \<open>i\<close> ends in its \<open>except Exception\<close>: reading the
  directory raised something other than \<open>PermissionError\<close>.
\<close>

definition panel_read_fails :: "'fs fileops \<Rightarrow> 'fs \<Rightarrow> nat \<Rightarrow> file_manager \<Rightarrow> bool" where
  "panel_read_fails ops fs i s =
     (case snd (read_dir ops fs (show_hidden s) (panel_paths s ! i)) of
        Some (OtherError e) \<Rightarrow> True
      | _ \<Rightarrow> False)"

text \<open>
  The conditions under which \<open>navigate_right\<close> changes directory: the list is not empty,
  the entry under the cursor is a directory, and listing that directory raises nothing.
\<close>

definition selected_dir_opens :: "'fs fileops \<Rightarrow> 'fs \<Rightarrow> file_manager \<Rightarrow> bool" where
  "selected_dir_opens ops fs s \<longleftrightarrow>
     files s \<noteq> [] \<and>
     (case py_nth (files s) (selected_index s) of
        Inl c \<Rightarrow> False
      | Inr selected_file \<Rightarrow>
          fi_is_dir selected_file \<and>
          (case fs_iterdir ops fs (joinpath (current_path s) (fi_name selected_file)) of
             Listed ns \<Rightarrow> True
           | Raised e \<Rightarrow> False))"

text \<open>The key that ends the dialog, if one was pressed.\<close>

definition closing_key :: "int list \<Rightarrow> int option" where
  "closing_key keys = find (\<lambda>k. k = 27 \<or> k = 10 \<or> k = 13 \<or> k = KEY_ENTER) keys"

definition printable :: "char \<Rightarrow> bool" where
  "printable c \<longleftrightarrow> 32 \<le> (of_char c :: nat) \<and> (of_char c :: nat) \<le> 126"

text \<open>What the dialog loop maintains about the text typed so far.\<close>

definition dialog_inv :: "int \<Rightarrow> string \<Rightarrow> bool" where
  "dialog_inv m str \<longleftrightarrow> (\<forall>ch\<in>set str. printable ch) \<and> int (length str) \<le> max 0 (m - 1)"

section \<open>An in-memory file system\<close>

text \<open>
  A small file system on which the model runs on concrete inputs: the nodes in the order
  the system enumerates them, each with its path, whether it is a directory and whether
  it may be read. Copies and moves always succeed, and \<open>is_dir()\<close> and \<open>exists()\<close>
  never raise.
\<close>

type_synonym mem_fs = "(path \<times> bool \<times> bool) list"

definition mem_node :: "mem_fs \<Rightarrow> path \<Rightarrow> (bool \<times> bool) option" where
  "mem_node fs p = (if p = [] then Some (True, True) else map_of fs p)"

definition mem_iterdir :: "mem_fs \<Rightarrow> path \<Rightarrow> dir_read" where
  "mem_iterdir fs p =
     (case mem_node fs p of
        None \<Rightarrow> Raised (OtherError ''No such file or directory'')
      | Some (d, r) \<Rightarrow>
          if \<not> d then Raised (OtherError ''Not a directory'')
          else if \<not> r then Raised (PermissionError ''Permission denied'')
          else Listed (map (\<lambda>n. last (fst n)) (filter (\<lambda>n. fst n \<noteq> [] \<and> butlast (fst n) = p) fs)))"

definition mem_ops :: "mem_fs fileops" where
  "mem_ops =
     \<lparr>fs_iterdir = mem_iterdir,
      fs_stat = (\<lambda>fs p. case mem_node fs p of None \<Rightarrow> None | Some n \<Rightarrow> Some (0, 0, 0)),
      fs_is_dir = (\<lambda>fs p. Inr (case mem_node fs p of None \<Rightarrow> False | Some (d, r) \<Rightarrow> d)),
      fs_exists = (\<lambda>fs p. Inr (mem_node fs p \<noteq> None)),
      fs_copytree = (\<lambda>fs src dst. (fs @ [(dst, True, True)], None)),
      fs_copy2 = (\<lambda>fs src dst. (fs @ [(dst, False, True)], None)),
      fs_move = (\<lambda>fs src dst. (map (\<lambda>n. if fst n = src then (dst, snd n) else n) fs, None)),
      fs_rmtree = (\<lambda>fs p. (filter (\<lambda>n. take (length p) (fst n) \<noteq> p) fs, None)),
      fs_unlink = (\<lambda>fs p. (filter (\<lambda>n. fst n \<noteq> p) fs, None))\<rparr>"

section \<open>What a paste did, and example states\<close>

text \<open>
  What the loop of \<open>paste_file\<close> ends with: the file system, the number of pasted
  items and the error list, or the exception that \<open>exists()\<close> raised (nothing is pasted
  from an empty clipboard).
\<close>

definition paste_outcome ::
  "'fs fileops \<Rightarrow> 'fs \<Rightarrow> file_manager \<Rightarrow> crash \<times> 'fs + 'fs \<times> nat \<times> string list" where
  "paste_outcome ops fs s =
     paste_loop ops (current_path s) (clipboard_action s)
       (case clipboard s of None \<Rightarrow> [] | Some sources \<Rightarrow> sources) (fs, 0, [])"

text \<open>
  A directory \<open>/home\<close> holding \<open>b.txt\<close>, the directory \<open>A\<close> and \<open>.hidden\<close>, where
  \<open>A\<close> holds \<open>b.txt\<close> and \<open>c.txt\<close>; the file manager started in \<open>/home\<close>; and the same
  with the two files of \<open>A\<close> staged in the clipboard.
\<close>

definition demo_fs :: mem_fs where
  "demo_fs =
     [([''home''], True, True), ([''home'', ''b.txt''], False, True),
      ([''home'', ''A''], True, True), ([''home'', ''.hidden''], False, True),
      ([''home'', ''A'', ''b.txt''], False, True), ([''home'', ''A'', ''c.txt''], False, True)]"

definition demo_home :: file_manager where
  "demo_home = init mem_ops demo_fs [''home'']"

definition demo_staged :: "action \<Rightarrow> file_manager" where
  "demo_staged act =
     demo_home
       \<lparr>clipboard := Some [[''home'', ''A'', ''b.txt''], [''home'', ''A'', ''c.txt'']],
        clipboard_action := Some act\<rparr>"

text \<open>
  A directory \<open>/m\<close> holding \<open>b.txt\<close>, \<open>c.MP3\<close> and \<open>a.mp3\<close>; the file manager started
  there; and the same after a search for \<open>c\<close>.
\<close>

definition music_fs :: mem_fs where
  "music_fs =
     [([''m''], True, True), ([''m'', ''b.txt''], False, True),
      ([''m'', ''c.MP3''], False, True), ([''m'', ''a.mp3''], False, True)]"

definition demo_music :: file_manager where
  "demo_music = init mem_ops music_fs [''m'']"

definition demo_searched :: file_manager where
  "demo_searched = start_search (Some ''c'') demo_music"

text \<open>
  \<open>/home\<close> with the cursor moved down to its last entry, and the same file system after
  \<open>/home\<close> has become unreadable.
\<close>

definition demo_cursor :: file_manager where
  "demo_cursor = navigate_down 24 demo_home"

definition locked_fs :: mem_fs where
  "locked_fs =
     [([''home''], True, False), ([''home'', ''b.txt''], False, True),
      ([''home'', ''A''], True, True), ([''home'', ''.hidden''], False, True),
      ([''home'', ''A'', ''b.txt''], False, True), ([''home'', ''A'', ''c.txt''], False, True)]"

text \<open>
  Dual-panel mode entered in \<open>/home\<close>, and then: the first entry marked in the left
  panel and the right panel made active with TAB.
\<close>

definition demo_dual :: file_manager where
  "demo_dual = toggle_dual_panel mem_ops demo_fs demo_home"

definition demo_marked :: file_manager where
  "demo_marked =
     (case toggle_selection demo_dual of Inr s \<Rightarrow> switch_panel s | Inl c \<Rightarrow> demo_dual)"

text \<open>
  A list is ordered as a listing when its directories come first and each of the two
  groups is sorted by lower-cased name.
\<close>

definition listing_ordered :: "file_info list \<Rightarrow> bool" where
  "listing_ordered xs \<longleftrightarrow>
     xs = filter fi_is_dir xs @ filter (\<lambda>x. \<not> fi_is_dir x) xs \<and>
     sorted (map (\<lambda>x. lower (fi_name x)) (filter fi_is_dir xs)) \<and>
     sorted (map (\<lambda>x. lower (fi_name x)) (filter (\<lambda>x. \<not> fi_is_dir x) xs))"

text \<open>
  A directory \<open>/d\<close> whose names differ in case: the files \<open>b.txt\<close>, \<open>B.md\<close>, \<open>a.txt\<close>
  and \<open>.hidden\<close> and the directories \<open>Z\<close> and \<open>a\<close>; and the state just before the
  first listing is made there.
\<close>

definition mixed_fs :: mem_fs where
  "mixed_fs =
     [([''d''], True, True), ([''d'', ''b.txt''], False, True), ([''d'', ''Z''], True, True),
      ([''d'', ''.hidden''], False, True), ([''d'', ''B.md''], False, True),
      ([''d'', ''a.txt''], False, True), ([''d'', ''a''], True, True)]"

definition demo_unlisted :: file_manager where
  "demo_unlisted = sync_to_panels (fresh [''d''])"

text \<open>
  A directory \<open>/u\<close> holding two files whose names begin with a capital and a small
  \<open>A\<close> with diaeresis (code points 196 and 228), enumerated capital first; and the state
  just before the first listing is made there.
\<close>

definition umlaut_fs :: mem_fs where
  "umlaut_fs =
     [([''u''], True, True), ([''u'', [CHR 0xC4, CHR ''B'']], False, True),
      ([''u'', [CHR 0xE4, CHR ''a'']], False, True)]"

definition demo_umlaut :: file_manager where
  "demo_umlaut = sync_to_panels (fresh [''u''])"

text \<open>
  The same collaborator when every \<open>stat\<close> of the one path \<open>q\<close> is refused: \<open>stat()\<close>
  fails there, and \<open>is_dir()\<close> and \<open>exists()\<close> raise \<open>PermissionError\<close>.
\<close>

definition denying_ops :: "path \<Rightarrow> mem_fs fileops" where
  "denying_ops q =
     mem_ops
       \<lparr>fs_stat := (\<lambda>fs p. if p = q then None else fs_stat mem_ops fs p),
        fs_is_dir := (\<lambda>fs p. if p = q then Inl (PermissionError ''Permission denied'')
                             else fs_is_dir mem_ops fs p),
        fs_exists := (\<lambda>fs p. if p = q then Inl (PermissionError ''Permission denied'')
                             else fs_exists mem_ops fs p)\<rparr>"

section \<open>The modal text input returns printable, bounded text\<close>

lemma slice_len_del: "0 < c \<Longrightarrow> length (slice_to xs (c - 1) @ slice_from xs c) \<le> length xs"
  by (auto simp: slice_to_def slice_from_def)

lemma slice_len_ins: "0 \<le> c \<Longrightarrow> length (slice_to xs c @ [x] @ slice_from xs c) = Suc (length xs)"
  by (auto simp: slice_to_def slice_from_def)

lemma slice_set: "set (slice_to xs i) \<subseteq> set xs" "set (slice_from xs j) \<subseteq> set xs"
  by (auto simp: slice_to_def slice_from_def dest: in_set_takeD in_set_dropD)

lemma printable_char_of:
  assumes "32 \<le> k" and "k \<le> 126"
  shows "printable (char_of (k::int))"
proof -
  from assms have "k mod 256 = k" by simp
  then have "(of_char (char_of k) :: int) = k" by simp
  then have "int (of_char (char_of k) :: nat) = k"
    by (metis of_nat_of_char)
  with assms show ?thesis unfolding printable_def by linarith
qed

lemma dialog_inv_del:
  assumes "0 < c" and "dialog_inv m str"
  shows "dialog_inv m (slice_to str (c - 1) @ slice_from str c)"
proof -
  let ?r = "slice_to str (c - 1) @ slice_from str c"
  have "set ?r \<subseteq> set str"
    using slice_set[of str] by simp
  moreover have "length ?r \<le> length str"
    by (rule slice_len_del[OF assms(1)])
  ultimately show ?thesis
    using assms(2) unfolding dialog_inv_def by (meson order_trans of_nat_le_iff subsetD)
qed

lemma dialog_inv_ins:
  assumes "0 \<le> c" and "32 \<le> (key::int)" and "key \<le> 126"
    and "int (length str) < m - 1" and "dialog_inv m str"
  shows "dialog_inv m (slice_to str c @ [char_of key] @ slice_from str c)"
proof -
  let ?r = "slice_to str c @ [char_of key] @ slice_from str c"
  have "set ?r \<subseteq> insert (char_of key) (set str)"
    using slice_set[of str] by auto
  moreover have "printable (char_of key)"
    by (rule printable_char_of[OF assms(2,3)])
  moreover have "length ?r = Suc (length str)"
    by (rule slice_len_ins[OF assms(1)])
  ultimately show ?thesis
    using assms(4,5) unfolding dialog_inv_def by auto
qed

text \<open>A key that does not close the dialog leaves a text that still meets the invariant.\<close>

lemma dialog_step:
  assumes "0 \<le> c" and "dialog_inv m str"
    and "key \<noteq> 27" and "\<not> (key = 10 \<or> key = 13 \<or> key = KEY_ENTER)"
  shows "\<exists>str' c'. dialog_loop m str c (key # keys) = dialog_loop m str' c' keys \<and>
           0 \<le> c' \<and> dialog_inv m str'"
proof -
  define ok where
    "ok = (\<lambda>v. \<exists>str' c'. v = dialog_loop m str' c' keys \<and> 0 \<le> c' \<and> dialog_inv m str')"
  have keep: "ok (dialog_loop m str x keys)" if "0 \<le> x" for x
    unfolding ok_def using that assms(2) by blast
  have del: "ok (dialog_loop m (slice_to str (c - 1) @ slice_from str c) (c - 1) keys)"
    if "0 < c"
    unfolding ok_def using dialog_inv_del[OF that assms(2)] that
    by (intro exI[of _ "slice_to str (c - 1) @ slice_from str c"] exI[of _ "c - 1"]) simp
  have ins: "ok (dialog_loop m (slice_to str c @ [char_of key] @ slice_from str c) (c + 1) keys)"
    if "32 \<le> key" "key \<le> 126" "int (length str) < m - 1"
    unfolding ok_def using dialog_inv_ins[OF assms(1) that assms(2)] assms(1)
    by (intro exI[of _ "slice_to str c @ [char_of key] @ slice_from str c"] exI[of _ "c + 1"]) simp
  have "ok (dialog_loop m str c (key # keys))"
    using assms(1,3,4) keep[of c] keep[of "c - 1"] keep[of "c + 1"] keep[of "int (length str)"]
      keep[of 0] del ins
    by (auto simp del: append.simps simp add: KEY_BACKSPACE_def KEY_LEFT_def KEY_RIGHT_def
          KEY_HOME_def KEY_END_def KEY_ENTER_def)
  then show ?thesis unfolding ok_def .
qed

lemma dialog_loop_inv:
  "dialog_loop m str c keys = Some (Some r) \<Longrightarrow> 0 \<le> c \<Longrightarrow> dialog_inv m str \<Longrightarrow> dialog_inv m r"
proof (induction keys arbitrary: str c)
  case Nil
  then show ?case by simp
next
  case (Cons key keys)
  show ?case
  proof (cases "key = 27 \<or> key = 10 \<or> key = 13 \<or> key = KEY_ENTER")
    case True
    then show ?thesis using Cons.prems by (auto split: if_splits)
  next
    case False
    then obtain str' c' where "dialog_loop m str c (key # keys) = dialog_loop m str' c' keys"
      "0 \<le> c'" "dialog_inv m str'"
      using dialog_step[OF Cons.prems(2,3), of key keys] by blast
    then show ?thesis using Cons.IH[of str' c'] Cons.prems(1) by simp
  qed
qed

lemma dialog_loop_waits:
  "dialog_loop m str c keys = None \<longleftrightarrow> closing_key keys = None"
  by (induction m str c keys rule: dialog_loop.induct) (simp_all add: closing_key_def)

lemma dialog_loop_esc:
  "dialog_loop m str c keys = Some None \<longleftrightarrow> closing_key keys = Some 27"
  by (induction m str c keys rule: dialog_loop.induct)
     (auto simp add: closing_key_def KEY_ENTER_def)

text \<open>
  Claim C9. \<open>get_dialog_input\<close> returns \<open>None\<close> exactly when the key that closes the
  dialog is ESC (code 27), and it is still waiting exactly when no closing key has been
  pressed. Whenever it returns a string, every character of the string is printable ASCII
  (codes 32 to 126), and for a positive \<open>max_length\<close>, as at every call in the program
  (50 and 20), the string is strictly shorter than \<open>max_length\<close>.
\<close>

theorem C9_dialog_input_result:
  "(get_dialog_input max_length keys = Some None \<longleftrightarrow> closing_key keys = Some 27) \<and>
   (get_dialog_input max_length keys = None \<longleftrightarrow> closing_key keys = None) \<and>
   (\<forall>str. get_dialog_input max_length keys = Some (Some str) \<longrightarrow>
      (\<forall>ch\<in>set str. 32 \<le> (of_char ch :: nat) \<and> (of_char ch :: nat) \<le> 126) \<and>
      (0 < max_length \<longrightarrow> int (length str) < max_length))"
proof -
  have "dialog_inv max_length str"
    if "get_dialog_input max_length keys = Some (Some str)" for str
    using dialog_loop_inv[of max_length "[]" 0 keys str] that
    by (simp add: get_dialog_input_def dialog_inv_def)
  then show ?thesis
    unfolding get_dialog_input_def dialog_inv_def printable_def
    using dialog_loop_esc[of max_length "[]" 0 keys] dialog_loop_waits[of max_length "[]" 0 keys]
    by fastforce
qed

theorem C9_dialog_input_result_witness:
  "get_dialog_input 50 [97, 7, 98, 260, 67, 8, 68, 10, 99] = Some (Some ''aDb'') \<and>
   map of_char ''aDb'' = [97, 68, 98 :: nat] \<and>
   (0::int) < 50 \<and> int (length ''aDb'') < 50 \<and>
   closing_key [97, 27, 10] = Some 27 \<and> get_dialog_input 50 [97, 27, 10] = Some None \<and>
   closing_key [97, 98] = None \<and> get_dialog_input 50 [97, 98] = None"
proof -
  have typed: "get_dialog_input 50 [97, 7, 98, 260, 67, 8, 68, 10, 99] = Some (Some ''aDb'')"
    by code_simp
  have esc: "closing_key [97, 27, 10] = Some 27"
    by (simp add: closing_key_def KEY_ENTER_def)
  have waiting: "closing_key [97, 98] = None"
    by (simp add: closing_key_def KEY_ENTER_def)
  show ?thesis
    using C9_dialog_input_result[of 50 "[97, 7, 98, 260, 67, 8, 68, 10, 99]"]
      C9_dialog_input_result[of 50 "[97, 27, 10]"] C9_dialog_input_result[of 50 "[97, 98]"]
      typed esc waiting
    by simp
qed

section \<open>Paste\<close>





lemma paste_loop_returns:
  "\<forall>f p. \<exists>found. fs_exists ops f p = Inr found \<Longrightarrow> \<exists>r. paste_loop ops cur act srcs st = Inr r"
proof (induction srcs arbitrary: st)
  case Nil
  show ?case by (cases st) simp
next
  case (Cons x xs)
  obtain fs n errs where st: "st = (fs, n, errs)" by (cases st) auto
  obtain found where "fs_exists ops fs (joinpath cur (path_name x)) = Inr found"
    using Cons.prems by blast
  then show ?case unfolding st using Cons.IH[OF Cons.prems]
    by (simp add: Let_def split: prod.splits option.splits)
qed

lemma refresh_panel_files_keeps:
  "panel_paths (refresh_panel_files ops fs i s) = panel_paths s"
  "show_hidden (refresh_panel_files ops fs i s) = show_hidden s"
  "active_panel (refresh_panel_files ops fs i s) = active_panel s"
  "dual_panel_mode (refresh_panel_files ops fs i s) = dual_panel_mode s"
  "length (panel_files (refresh_panel_files ops fs i s)) = length (panel_files s)"
  "panel_scroll_offset (refresh_panel_files ops fs i s) = panel_scroll_offset s"
  by (auto simp: refresh_panel_files_def Let_def split: prod.splits option.splits exc.splits)

lemma refresh_panel_files_untouched:
  "clipboard (refresh_panel_files ops fs i s) = clipboard s"
  "clipboard_action (refresh_panel_files ops fs i s) = clipboard_action s"
  "current_path (refresh_panel_files ops fs i s) = current_path s"
  "scroll_offset (refresh_panel_files ops fs i s) = scroll_offset s"
  "message (refresh_panel_files ops fs i s) = message s"
  "search_mode (refresh_panel_files ops fs i s) = search_mode s"
  "filter_mode (refresh_panel_files ops fs i s) = filter_mode s"
  "search_query (refresh_panel_files ops fs i s) = search_query s"
  "filter_extension (refresh_panel_files ops fs i s) = filter_extension s"
  "original_files (refresh_panel_files ops fs i s) = original_files s"
  by (auto simp: refresh_panel_files_def Let_def split: prod.splits option.splits exc.splits)

lemma refresh_files_keeps:
  "clipboard (refresh_files ops fs s) = clipboard s"
  "clipboard_action (refresh_files ops fs s) = clipboard_action s"
  "current_path (refresh_files ops fs s) = current_path s"
  "show_hidden (refresh_files ops fs s) = show_hidden s"
  "dual_panel_mode (refresh_files ops fs s) = dual_panel_mode s"
  "active_panel (refresh_files ops fs s) = active_panel s"
  "panel_paths (refresh_files ops fs s) = panel_paths s"
  "panel_scroll_offset (refresh_files ops fs s) = panel_scroll_offset s"
  "scroll_offset (refresh_files ops fs s) = scroll_offset s"
  by (auto simp: refresh_files_def refresh_panel_files_keeps refresh_panel_files_untouched
        show_message_def clear_overlay_fields_def Let_def
        split: prod.splits option.splits exc.splits)

lemma refresh_files_message:
  "dual_panel_mode s \<or> snd (read_dir ops fs (show_hidden s) (current_path s)) = None \<Longrightarrow>
   message (refresh_files ops fs s) = message s"
  by (auto simp: refresh_files_def refresh_panel_files_untouched show_message_def
        clear_overlay_fields_def Let_def split: prod.splits option.splits exc.splits)

lemma paste_file_populated:
  assumes "clipboard s = Some sources" and "sources \<noteq> []"
    and "paste_outcome ops fs s = Inr (fs', pasted_count, errors)"
  shows "\<exists>s'. paste_file ops (fs, s) = Inr (fs', s') \<and>
           clipboard s' =
             (if clipboard_action s = Some Cut \<and> 0 < pasted_count then None else clipboard s) \<and>
           clipboard_action s' =
             (if clipboard_action s = Some Cut \<and> 0 < pasted_count then None
              else clipboard_action s) \<and>
           (errors \<noteq> [] \<and>
            (dual_panel_mode s \<or> snd (read_dir ops fs' (show_hidden s) (current_path s)) = None) \<longrightarrow>
              message s' = errors_message 3 errors)"
proof -
  define s1 where "s1 = (if clipboard_action s = Some Cut \<and> pasted_count > 0
      then s\<lparr>clipboard := None, clipboard_action := None\<rparr> else s)"
  define s2 where "s2 = (if pasted_count > 0
      then show_message ((if clipboard_action s1 = Some Copy then ''Copied'' else ''Moved'')
             @ '' '' @ digits_of pasted_count @ '' file(s)'') s1
      else s1)"
  define s3 where "s3 = (if errors \<noteq> [] then show_message (errors_message 3 errors) s2 else s2)"
  have pf: "paste_file ops (fs, s) = Inr (fs', refresh_files ops fs' s3)"
    using assms unfolding s1_def s2_def s3_def
    by (cases sources) (simp_all add: paste_file_def paste_outcome_def Let_def)
  have c: "clipboard s3 =
      (if clipboard_action s = Some Cut \<and> 0 < pasted_count then None else clipboard s)"
    and a: "clipboard_action s3 =
      (if clipboard_action s = Some Cut \<and> 0 < pasted_count then None else clipboard_action s)"
    and k: "dual_panel_mode s3 = dual_panel_mode s" "show_hidden s3 = show_hidden s"
      "current_path s3 = current_path s"
    and m: "errors \<noteq> [] \<Longrightarrow> message s3 = errors_message 3 errors"
    by (simp_all add: s3_def s2_def s1_def show_message_def)
  have "message (refresh_files ops fs' s3) = errors_message 3 errors"
    if "errors \<noteq> [] \<and>
      (dual_panel_mode s \<or> snd (read_dir ops fs' (show_hidden s) (current_path s)) = None)"
    using that refresh_files_message[of s3 ops fs'] m by (simp add: k)
  then show ?thesis
    using pf c a by (intro exI[of _ "refresh_files ops fs' s3"]) (simp add: refresh_files_keeps)
qed

lemma paste_file_crash:
  assumes "clipboard s = Some sources" and "sources \<noteq> []"
  shows "paste_file ops (fs, s) = Inl c \<longleftrightarrow> paste_outcome ops fs s = Inl c"
  using assms
  by (cases sources)
     (auto simp: paste_file_def paste_outcome_def Let_def split: sum.splits prod.splits)

lemma paste_file_empty:
  "clipboard s = None \<or> clipboard s = Some [] \<Longrightarrow>
   paste_file ops (fs, s) = Inr (fs, s\<lparr>message := ''Nothing to paste''\<rparr>)"
  by (auto simp: paste_file_def show_message_def)

text \<open>
  Claim C10. Pasting while the clipboard is empty (\<open>None\<close> or an empty list) returns,
  shows \<open>Nothing to paste\<close> and changes nothing else: the file system is the same, and the
  state is the old state with only the message replaced.
\<close>

theorem C10_paste_nothing:
  "clipboard s = None \<or> clipboard s = Some [] \<Longrightarrow>
   paste_file ops (fs, s) = Inr (fs, s\<lparr>message := ''Nothing to paste''\<rparr>)"
  by (rule paste_file_empty)

theorem C10_paste_nothing_witness:
  "clipboard demo_home = None \<and>
   paste_file mem_ops (demo_fs, demo_home) =
     Inr (demo_fs, demo_home\<lparr>message := ''Nothing to paste''\<rparr>)"
proof -
  have "clipboard demo_home = None" by code_simp
  then show ?thesis
    using C10_paste_nothing[of demo_home mem_ops demo_fs] by simp
qed

text \<open>
  Claim C7. Whenever \<open>paste_file\<close> returns, the loop has ended with some
  \<open>pasted_count\<close>, and the clipboard and its action are \<open>None\<close> when the action was cut
  and \<open>pasted_count\<close> is positive, and are what they were before in every other case; so
  a populated clipboard is cleared if and only if the action was cut and at least one
  item was moved. The paste does return whenever \<open>exists()\<close> raises nothing; when
  \<open>exists()\<close> raises, the exception ends the program.
\<close>

theorem C7_clipboard_after_paste:
  "(\<forall>fs' s'. paste_file ops (fs, s) = Inr (fs', s') \<longrightarrow>
      (\<exists>pasted_count errors.
         paste_outcome ops fs s = Inr (fs', pasted_count, errors) \<and>
         clipboard s' =
           (if clipboard_action s = Some Cut \<and> 0 < pasted_count then None else clipboard s) \<and>
         clipboard_action s' =
           (if clipboard_action s = Some Cut \<and> 0 < pasted_count then None
            else clipboard_action s) \<and>
         (clipboard s \<noteq> None \<longrightarrow>
            (clipboard s' = None \<longleftrightarrow> clipboard_action s = Some Cut \<and> 0 < pasted_count)))) \<and>
   ((\<forall>f p. \<exists>found. fs_exists ops f p = Inr found) \<longrightarrow>
      (\<exists>fs' s'. paste_file ops (fs, s) = Inr (fs', s')))"
proof (cases "clipboard s = None \<or> clipboard s = Some []")
  case True
  have out: "paste_outcome ops fs s = Inr (fs, 0, [])"
    using True by (auto simp: paste_outcome_def)
  have pf: "paste_file ops (fs, s) = Inr (fs, s\<lparr>message := ''Nothing to paste''\<rparr>)"
    by (rule paste_file_empty[OF True])
  show ?thesis
    unfolding pf using out by auto
next
  case False
  then obtain sources where src: "clipboard s = Some sources" "sources \<noteq> []"
    by (cases "clipboard s") auto
  have ret: "\<exists>pasted_count errors.
         paste_outcome ops fs s = Inr (fs', pasted_count, errors) \<and>
         clipboard s' =
           (if clipboard_action s = Some Cut \<and> 0 < pasted_count then None else clipboard s) \<and>
         clipboard_action s' =
           (if clipboard_action s = Some Cut \<and> 0 < pasted_count then None
            else clipboard_action s) \<and>
         (clipboard s \<noteq> None \<longrightarrow>
            (clipboard s' = None \<longleftrightarrow> clipboard_action s = Some Cut \<and> 0 < pasted_count))"
    if pf: "paste_file ops (fs, s) = Inr (fs', s')" for fs' s'
  proof (cases "paste_outcome ops fs s")
    case (Inl c)
    then show ?thesis
      using paste_file_crash[OF src, of ops fs c] pf by simp
  next
    case (Inr r)
    obtain f n e where r: "r = (f, n, e)" by (cases r) auto
    obtain t where t: "paste_file ops (fs, s) = Inr (f, t)"
      "clipboard t = (if clipboard_action s = Some Cut \<and> 0 < n then None else clipboard s)"
      "clipboard_action t =
         (if clipboard_action s = Some Cut \<and> 0 < n then None else clipboard_action s)"
      using paste_file_populated[OF src Inr[unfolded r]] by blast
    have eq: "f = fs'" "t = s'"
      using t(1) pf by simp_all
    show ?thesis
      using Inr t(2,3) src(1) unfolding r eq
      by (intro exI[of _ n] exI[of _ e]) simp
  qed
  have tot: "\<exists>fs' s'. paste_file ops (fs, s) = Inr (fs', s')"
    if ex: "\<forall>f p. \<exists>found. fs_exists ops f p = Inr found"
  proof -
    obtain r where "paste_outcome ops fs s = Inr r"
      using paste_loop_returns[OF ex] unfolding paste_outcome_def by blast
    moreover obtain f n e where "r = (f, n, e)" by (cases r) auto
    ultimately show ?thesis
      using paste_file_populated[OF src, of ops fs f n e] by blast
  qed
  show ?thesis
    using ret tot by blast
qed

theorem C7_clipboard_after_paste_witness:
  "clipboard_action (demo_staged Cut) = Some Cut \<and>
   clipboard (demo_staged Cut) \<noteq> None \<and>
   \<not> isl (paste_file mem_ops (demo_fs, demo_staged Cut)) \<and>
   \<not> isl (paste_outcome mem_ops demo_fs (demo_staged Cut)) \<and>
   fst (snd (projr (paste_outcome mem_ops demo_fs (demo_staged Cut)))) = 1 \<and>
   clipboard (snd (projr (paste_file mem_ops (demo_fs, demo_staged Cut)))) = None \<and>
   clipboard_action (snd (projr (paste_file mem_ops (demo_fs, demo_staged Cut)))) = None \<and>
   \<not> isl (paste_file mem_ops (demo_fs, demo_staged Copy)) \<and>
   clipboard (snd (projr (paste_file mem_ops (demo_fs, demo_staged Copy)))) =
     clipboard (demo_staged Copy) \<and>
   isl (paste_file (denying_ops [''home'', ''c.txt'']) (demo_fs, demo_staged Cut))"
proof -
  have a: "clipboard_action (demo_staged Cut) = Some Cut"
    and a': "clipboard_action (demo_staged Copy) = Some Copy"
    and c: "clipboard (demo_staged Cut) \<noteq> None"
    by (simp_all add: demo_staged_def)
  have r: "\<not> isl (paste_file mem_ops (demo_fs, demo_staged Cut))" by code_simp
  have r': "\<not> isl (paste_file mem_ops (demo_fs, demo_staged Copy))" by code_simp
  have o: "\<not> isl (paste_outcome mem_ops demo_fs (demo_staged Cut))" by code_simp
  have n: "fst (snd (projr (paste_outcome mem_ops demo_fs (demo_staged Cut)))) = 1"
    by code_simp
  have x: "isl (paste_file (denying_ops [''home'', ''c.txt'']) (demo_fs, demo_staged Cut))"
    by code_simp
  have pf: "paste_file mem_ops (demo_fs, demo_staged Cut) =
      Inr (fst (projr (paste_file mem_ops (demo_fs, demo_staged Cut))),
           snd (projr (paste_file mem_ops (demo_fs, demo_staged Cut))))"
    using r by simp
  have pf': "paste_file mem_ops (demo_fs, demo_staged Copy) =
      Inr (fst (projr (paste_file mem_ops (demo_fs, demo_staged Copy))),
           snd (projr (paste_file mem_ops (demo_fs, demo_staged Copy))))"
    using r' by simp
  note cut_case = C7_clipboard_after_paste[of mem_ops demo_fs "demo_staged Cut",
      THEN conjunct1, rule_format, OF pf]
  note copy_case = C7_clipboard_after_paste[of mem_ops demo_fs "demo_staged Copy",
      THEN conjunct1, rule_format, OF pf']
  obtain k e where k: "paste_outcome mem_ops demo_fs (demo_staged Cut) =
        Inr (fst (projr (paste_file mem_ops (demo_fs, demo_staged Cut))), k, e)"
    and ck: "clipboard (snd (projr (paste_file mem_ops (demo_fs, demo_staged Cut)))) =
        (if clipboard_action (demo_staged Cut) = Some Cut \<and> 0 < k then None
         else clipboard (demo_staged Cut))"
    and ak: "clipboard_action (snd (projr (paste_file mem_ops (demo_fs, demo_staged Cut)))) =
        (if clipboard_action (demo_staged Cut) = Some Cut \<and> 0 < k then None
         else clipboard_action (demo_staged Cut))"
    using cut_case by (elim exE conjE) (rule that, assumption+)
  have k1: "k = 1"
    using n unfolding k by simp
  have cut: "clipboard (snd (projr (paste_file mem_ops (demo_fs, demo_staged Cut)))) = None"
    "clipboard_action (snd (projr (paste_file mem_ops (demo_fs, demo_staged Cut)))) = None"
    using ck ak a k1 by simp_all
  obtain k' e' where "paste_outcome mem_ops demo_fs (demo_staged Copy) =
        Inr (fst (projr (paste_file mem_ops (demo_fs, demo_staged Copy))), k', e')"
    and "clipboard (snd (projr (paste_file mem_ops (demo_fs, demo_staged Copy)))) =
        (if clipboard_action (demo_staged Copy) = Some Cut \<and> 0 < k' then None
         else clipboard (demo_staged Copy))"
    using copy_case by (elim exE conjE) (rule that, assumption+)
  then have copy: "clipboard (snd (projr (paste_file mem_ops (demo_fs, demo_staged Copy)))) =
      clipboard (demo_staged Copy)"
    using a' by simp
  show ?thesis
    by (intro conjI a c r o n cut r' copy x)
qed



section \<open>Delete\<close>

lemma non_empty_dirs_step:
  assumes "non_empty_dirs ops fs ((i, f, q) # rest) = Inr ds"
  shows "\<exists>d ds'. fs_is_dir ops fs q = Inr d \<and> non_empty_dirs ops fs rest = Inr ds' \<and>
           (if d then \<exists>ns. fs_iterdir ops fs q = Listed ns \<and>
                          ds = (if ns \<noteq> [] then f # ds' else ds')
            else ds = ds')"
proof (cases "fs_is_dir ops fs q")
  case (Inl e)
  then show ?thesis using assms by simp
next
  case (Inr d)
  show ?thesis
  proof (cases d)
    case False
    then show ?thesis using assms Inr by auto
  next
    case True
    show ?thesis
    proof (cases "fs_iterdir ops fs q")
      case (Raised e)
      then show ?thesis using assms Inr True by simp
    next
      case (Listed ns)
      then show ?thesis using assms Inr True
        by (cases "non_empty_dirs ops fs rest") auto
    qed
  qed
qed

lemma non_empty_dirs_found:
  "non_empty_dirs ops fs ts = Inr ds \<Longrightarrow> (idx, name, p) \<in> set ts \<Longrightarrow>
   fs_is_dir ops fs p = Inr True \<Longrightarrow> fs_iterdir ops fs p = Listed (n # ns) \<Longrightarrow> ds \<noteq> []"
proof (induction ts arbitrary: ds)
  case Nil
  then show ?case by simp
next
  case (Cons t ts)
  obtain i f q where t: "t = (i, f, q)" by (cases t) auto
  obtain d ds' where d: "fs_is_dir ops fs q = Inr d"
    and rest: "non_empty_dirs ops fs ts = Inr ds'"
    and ds: "if d then \<exists>ns. fs_iterdir ops fs q = Listed ns \<and>
                          ds = (if ns \<noteq> [] then f # ds' else ds')
             else ds = ds'"
    using non_empty_dirs_step[OF Cons.prems(1)[unfolded t]]
    by (elim exE conjE) (rule that, assumption+)
  show ?case
  proof (cases "(idx, name, p) = t")
    case True
    then have "q = p" using t by simp
    then show ?thesis
      using d ds Cons.prems(3,4) by auto
  next
    case False
    then have "(idx, name, p) \<in> set ts" using Cons.prems(2) by simp
    then have "ds' \<noteq> []"
      using Cons.IH[OF rest _ Cons.prems(3,4)] by simp
    then show ?thesis
      using ds by (auto split: if_splits)
  qed
qed

lemma prompt_raises_dir:
  assumes "(idx, name, p) \<in> set ts" and "fs_is_dir ops fs p = Inr True"
  shows "prompt_raises ops fs ts = None"
proof (cases ts)
  case Nil
  then show ?thesis using assms(1) by simp
next
  case (Cons t rest)
  show ?thesis
  proof (cases rest)
    case Nil
    then have "t = (idx, name, p)" using Cons assms(1) by simp
    then show ?thesis using Cons Nil assms(2) by (simp add: prompt_raises_def)
  next
    case c: (Cons u rest')
    show ?thesis unfolding Cons c
      by (cases t) (simp add: prompt_raises_def)
  qed
qed

text \<open>
  Claim C8. Let some target of \<open>delete_file\<close> be a directory that lists at least one
  child, and let the second key be neither \<open>y\<close> nor \<open>Y\<close>. Then, whatever the first key
  was, a call that returns leaves the file system untouched and the state unchanged but
  for the message \<open>Delete cancelled\<close>; and it does return whenever the check for non-empty
  directories raises nothing.
\<close>

theorem C8_recursive_delete_declined:
  assumes "delete_targets s = Inr ts" and "(idx, name, p) \<in> set ts"
    and "fs_is_dir ops fs p = Inr True" and "fs_iterdir ops fs p = Listed (n # ns)"
    and "\<not> is_yes key2"
  shows "(\<forall>ds. non_empty_dirs ops fs ts = Inr ds \<longrightarrow>
           delete_file ops key key2 (fs, s) = Inr (fs, s\<lparr>message := ''Delete cancelled''\<rparr>)) \<and>
         (\<forall>fs' s'. delete_file ops key key2 (fs, s) = Inr (fs', s') \<longrightarrow>
           fs' = fs \<and> s' = s\<lparr>message := ''Delete cancelled''\<rparr>)"
proof -
  have ts: "ts \<noteq> []" using assms(2) by auto
  have pr: "prompt_raises ops fs ts = None"
    by (rule prompt_raises_dir[OF assms(2,3)])
  have ds: "ds' \<noteq> []" if "non_empty_dirs ops fs ts = Inr ds'" for ds'
    using non_empty_dirs_found[OF that assms(2,3,4)] .
  have a: "delete_file ops key key2 (fs, s) = Inr (fs, s\<lparr>message := ''Delete cancelled''\<rparr>)"
    if "non_empty_dirs ops fs ts = Inr ds" for ds
    using that ds[OF that] assms(1,5) ts pr
    by (simp add: delete_file_def show_message_def)
  have b: "fs' = fs \<and> s' = s\<lparr>message := ''Delete cancelled''\<rparr>"
    if "delete_file ops key key2 (fs, s) = Inr (fs', s')" for fs' s'
    using that ds assms(1,5) ts pr
    by (auto simp: delete_file_def show_message_def split: if_splits sum.splits)
  show ?thesis using a b by blast
qed

theorem C8_recursive_delete_declined_witness:
  "delete_targets demo_home = Inr [(0, ''A'', [''home'', ''A''])] \<and>
   fs_is_dir mem_ops demo_fs [''home'', ''A''] = Inr True \<and>
   fs_iterdir mem_ops demo_fs [''home'', ''A''] = Listed [''b.txt'', ''c.txt''] \<and>
   \<not> is_yes 110 \<and>
   non_empty_dirs mem_ops demo_fs [(0, ''A'', [''home'', ''A''])] = Inr [''A''] \<and>
   delete_file mem_ops 121 110 (demo_fs, demo_home) =
     Inr (demo_fs, demo_home\<lparr>message := ''Delete cancelled''\<rparr>)"
proof -
  have t: "delete_targets demo_home = Inr [(0, ''A'', [''home'', ''A''])]"
    by code_simp
  have m: "(0, ''A'', [''home'', ''A'']) \<in> set [(0::int, ''A'', [''home'', ''A''])]"
    by simp
  have d: "fs_is_dir mem_ops demo_fs [''home'', ''A''] = Inr True"
    by code_simp
  have l: "fs_iterdir mem_ops demo_fs [''home'', ''A''] = Listed (''b.txt'' # [''c.txt''])"
    by code_simp
  have k: "\<not> is_yes 110"
    by (simp add: is_yes_def)
  have n: "non_empty_dirs mem_ops demo_fs [(0, ''A'', [''home'', ''A''])] = Inr [''A'']"
    by code_simp
  have r: "delete_file mem_ops 121 110 (demo_fs, demo_home) =
     Inr (demo_fs, demo_home\<lparr>message := ''Delete cancelled''\<rparr>)"
    using C8_recursive_delete_declined[OF t m d l k, of 121] n by blast
  show ?thesis
    by (intro conjI t d k n r) (simp add: l)
qed

section \<open>Search and filter overlays\<close>

lemma apply_clear_files:
  "original_files s = [] \<Longrightarrow> files (clear_search_filter (apply_search_filter s)) = files s"
  by (auto simp: clear_search_filter_def apply_search_filter_def store_cleared_def
        show_message_def Let_def)

lemma apply_clear_panel:
  "original_files s = [] \<Longrightarrow> dual_panel_mode s \<Longrightarrow> active_panel s < length (panel_files s) \<Longrightarrow>
   panel_files (clear_search_filter (apply_search_filter s)) ! active_panel s = files s"
  by (auto simp: clear_search_filter_def apply_search_filter_def store_cleared_def
        show_message_def Let_def)

lemma clear_show_message:
  "clear_search_filter (show_message m s) = clear_search_filter s"
  by (simp add: clear_search_filter_def show_message_def store_cleared_def Let_def)

lemma clear_clear_files:
  "original_files s = [] \<Longrightarrow> files (clear_search_filter (clear_search_filter s)) = files s"
  by (auto simp: clear_search_filter_def store_cleared_def show_message_def Let_def)

text \<open>
  Claim C4, as the code has it. When no earlier overlay's snapshot is held
  (\<open>original_files\<close> is empty, as it is whenever no search or filter is active in
  single-panel mode), clearing right after applying an overlay gives back exactly the
  entry list that was there before the overlay was applied; in dual-panel mode the active
  panel's stored list is that list too. This holds for \<open>apply_search_filter\<close> with any
  setting of the overlay fields and for the two commands \<open>start_search\<close> and
  \<open>start_filter\<close> that call it.
\<close>

theorem C4_clear_restores_entries:
  assumes "original_files s = []"
  shows "files (clear_search_filter (apply_search_filter s)) = files s \<and>
         files (clear_search_filter (start_search (Some q) s)) = files s \<and>
         files (clear_search_filter (start_filter (Some e) s)) = files s \<and>
         (dual_panel_mode s \<and> active_panel s < length (panel_files s) \<longrightarrow>
            panel_files (clear_search_filter (apply_search_filter s)) ! active_panel s = files s)"
proof -
  have a: "files (clear_search_filter (apply_search_filter (s\<lparr>search_query := x, search_mode := True,
             filter_mode := False\<rparr>))) = files s" for x
    using apply_clear_files[of "s\<lparr>search_query := x, search_mode := True, filter_mode := False\<rparr>"]
      assms by simp
  have b: "files (clear_search_filter (apply_search_filter (s\<lparr>filter_extension := x,
             filter_mode := True, search_mode := False\<rparr>))) = files s" for x
    using apply_clear_files[of "s\<lparr>filter_extension := x, filter_mode := True, search_mode := False\<rparr>"]
      assms by simp
  have "files (clear_search_filter (start_search (Some q) s)) = files s"
    using a clear_clear_files[OF assms]
    by (simp add: start_search_def clear_show_message)
  moreover have "files (clear_search_filter (start_filter (Some e) s)) = files s"
    using b clear_clear_files[OF assms]
    by (simp add: start_filter_def clear_show_message Let_def)
  ultimately show ?thesis
    using apply_clear_files[OF assms] apply_clear_panel[OF assms] by simp
qed

theorem C4_clear_restores_entries_witness:
  "original_files demo_music = [] \<and>
   files (start_filter (Some ''.mp3'') demo_music) =
     [(''a.mp3'', False, 0, 0, 0), (''c.MP3'', False, 0, 0, 0)] \<and>
   files (clear_search_filter (start_filter (Some ''.mp3'') demo_music)) =
     [(''a.mp3'', False, 0, 0, 0), (''b.txt'', False, 0, 0, 0), (''c.MP3'', False, 0, 0, 0)] \<and>
   files (clear_search_filter (start_filter (Some ''.mp3'') demo_music)) = files demo_music"
proof -
  have o: "original_files demo_music = []"
    by code_simp
  have f: "files (start_filter (Some ''.mp3'') demo_music) =
     [(''a.mp3'', False, 0, 0, 0), (''c.MP3'', False, 0, 0, 0)]"
    by code_simp
  have m: "files demo_music =
     [(''a.mp3'', False, 0, 0, 0), (''b.txt'', False, 0, 0, 0), (''c.MP3'', False, 0, 0, 0)]"
    by code_simp
  have r: "files (clear_search_filter (start_filter (Some ''.mp3'') demo_music)) = files demo_music"
    using C4_clear_restores_entries[OF o, of "[]" "''.mp3''"] by blast
  show ?thesis
    by (intro conjI o f r) (simp add: r m)
qed

text \<open>
  The claim as stated, for every panel state, fails when an overlay is already active:
  \<open>apply_search_filter\<close> keeps the older snapshot, so after a search for \<open>c\<close> (one entry
  shown), a filter and then a clear bring back all three entries of the directory, not
  the one entry that was shown before the filter was applied.
\<close>

theorem C4_second_overlay_counterexample:
  "files demo_searched = [(''c.MP3'', False, 0, 0, 0)] \<and>
   files (clear_search_filter (start_filter (Some ''mp3'') demo_searched)) =
     [(''a.mp3'', False, 0, 0, 0), (''b.txt'', False, 0, 0, 0), (''c.MP3'', False, 0, 0, 0)] \<and>
   files (clear_search_filter (start_filter (Some ''mp3'') demo_searched)) \<noteq> files demo_searched"
proof -
  have a: "files demo_searched = [(''c.MP3'', False, 0, 0, 0)]"
    by code_simp
  have b: "files (clear_search_filter (start_filter (Some ''mp3'') demo_searched)) =
     [(''a.mp3'', False, 0, 0, 0), (''b.txt'', False, 0, 0, 0), (''c.MP3'', False, 0, 0, 0)]"
    by code_simp
  show ?thesis
    unfolding a b by simp
qed

text \<open>
  Claim C5, as the code has it. The F5 refresh never changes the path. In single-panel
  mode, when the directory is read without an exception, it discards an active overlay:
  afterwards neither search nor filter mode is on, the query and the extension are
  empty, no snapshot is held, and the entries are the whole sorted listing rather than
  the filtered part. In dual-panel mode, and when reading the directory raises an
  exception, the overlay fields are left as they were; in the latter case the entries
  are empty.
\<close>

theorem C5_refresh_discards_overlay:
  "current_path (key_f5 ops fs s) = current_path s \<and>
   (\<not> dual_panel_mode s \<and> (search_mode s \<or> filter_mode s) \<and>
    read_dir ops fs (show_hidden s) (current_path s) = (entries, None) \<longrightarrow>
      \<not> search_mode (key_f5 ops fs s) \<and> \<not> filter_mode (key_f5 ops fs s) \<and>
      search_query (key_f5 ops fs s) = [] \<and> filter_extension (key_f5 ops fs s) = [] \<and>
      original_files (key_f5 ops fs s) = [] \<and>
      files (key_f5 ops fs s) = sort_key entry_key entries) \<and>
   (dual_panel_mode s \<or> snd (read_dir ops fs (show_hidden s) (current_path s)) \<noteq> None \<longrightarrow>
      search_mode (key_f5 ops fs s) = search_mode s \<and>
      filter_mode (key_f5 ops fs s) = filter_mode s \<and>
      search_query (key_f5 ops fs s) = search_query s \<and>
      filter_extension (key_f5 ops fs s) = filter_extension s \<and>
      original_files (key_f5 ops fs s) = original_files s) \<and>
   (\<not> dual_panel_mode s \<and> snd (read_dir ops fs (show_hidden s) (current_path s)) \<noteq> None \<longrightarrow>
      files (key_f5 ops fs s) = [])"
proof (intro conjI impI)
  show "current_path (key_f5 ops fs s) = current_path s"
    by (simp add: key_f5_def show_message_def refresh_files_keeps)
next
  assume "\<not> dual_panel_mode s \<and> (search_mode s \<or> filter_mode s) \<and>
    read_dir ops fs (show_hidden s) (current_path s) = (entries, None)"
  then have r: "refresh_files ops fs s =
      s\<lparr>files := sort_key entry_key entries,
        selected_index := clamp_index (selected_index s) (length (sort_key entry_key entries)),
        selected_files := {}, original_files := [], search_mode := False,
        filter_mode := False, search_query := [], filter_extension := []\<rparr>"
    by (auto simp: refresh_files_def clear_overlay_fields_def Let_def)
  show "\<not> search_mode (key_f5 ops fs s)" and "\<not> filter_mode (key_f5 ops fs s)"
    and "search_query (key_f5 ops fs s) = []" and "filter_extension (key_f5 ops fs s) = []"
    and "original_files (key_f5 ops fs s) = []"
    and "files (key_f5 ops fs s) = sort_key entry_key entries"
    unfolding key_f5_def r by (simp_all add: show_message_def)
next
  assume a: "dual_panel_mode s \<or> snd (read_dir ops fs (show_hidden s) (current_path s)) \<noteq> None"
  show "search_mode (key_f5 ops fs s) = search_mode s"
    and "filter_mode (key_f5 ops fs s) = filter_mode s"
    and "search_query (key_f5 ops fs s) = search_query s"
    and "filter_extension (key_f5 ops fs s) = filter_extension s"
    and "original_files (key_f5 ops fs s) = original_files s"
    using a
    by (auto simp: key_f5_def refresh_files_def refresh_panel_files_untouched show_message_def
          Let_def split: prod.splits option.splits exc.splits)
next
  assume "\<not> dual_panel_mode s \<and> snd (read_dir ops fs (show_hidden s) (current_path s)) \<noteq> None"
  then show "files (key_f5 ops fs s) = []"
    by (auto simp: key_f5_def refresh_files_def show_message_def
          split: prod.splits option.splits exc.splits)
qed

theorem C5_refresh_discards_overlay_witness:
  "\<not> dual_panel_mode demo_searched \<and> search_mode demo_searched \<and>
   read_dir mem_ops music_fs (show_hidden demo_searched) (current_path demo_searched) =
     ([(''b.txt'', False, 0, 0, 0), (''c.MP3'', False, 0, 0, 0), (''a.mp3'', False, 0, 0, 0)],
      None) \<and>
   \<not> search_mode (key_f5 mem_ops music_fs demo_searched) \<and>
   search_query (key_f5 mem_ops music_fs demo_searched) = [] \<and>
   files (key_f5 mem_ops music_fs demo_searched) =
     [(''a.mp3'', False, 0, 0, 0), (''b.txt'', False, 0, 0, 0), (''c.MP3'', False, 0, 0, 0)] \<and>
   snd (read_dir (denying_ops [''m'', ''a.mp3'']) music_fs (show_hidden demo_searched)
          (current_path demo_searched)) \<noteq> None \<and>
   search_mode (key_f5 (denying_ops [''m'', ''a.mp3'']) music_fs demo_searched) \<and>
   search_query (key_f5 (denying_ops [''m'', ''a.mp3'']) music_fs demo_searched) = ''c'' \<and>
   files (key_f5 (denying_ops [''m'', ''a.mp3'']) music_fs demo_searched) = []"
proof -
  have d: "\<not> dual_panel_mode demo_searched" by code_simp
  have m: "search_mode demo_searched" by code_simp
  have q: "search_query demo_searched = ''c''" by code_simp
  have l: "read_dir mem_ops music_fs (show_hidden demo_searched) (current_path demo_searched) =
     ([(''b.txt'', False, 0, 0, 0), (''c.MP3'', False, 0, 0, 0), (''a.mp3'', False, 0, 0, 0)],
      None)"
    by code_simp
  have srt: "sort_key entry_key
      [(''b.txt'', False, 0, 0, 0), (''c.MP3'', False, 0, 0, 0), (''a.mp3'', False, 0, 0, 0)] =
      [(''a.mp3'', False, 0, 0, 0), (''b.txt'', False, 0, 0, 0), (''c.MP3'', False, 0, 0, 0)]"
    by code_simp
  have x: "snd (read_dir (denying_ops [''m'', ''a.mp3'']) music_fs (show_hidden demo_searched)
          (current_path demo_searched)) \<noteq> None"
    by code_simp
  note ok = C5_refresh_discards_overlay[where s = demo_searched and ops = mem_ops
      and fs = music_fs, THEN conjunct2, THEN conjunct1, rule_format, OF conjI[OF d conjI[OF disjI1[OF m] l]]]
  note no = C5_refresh_discards_overlay[where s = demo_searched
      and ops = "denying_ops [''m'', ''a.mp3'']" and fs = music_fs and entries = "[]"]
  have r: "\<not> search_mode (key_f5 mem_ops music_fs demo_searched)"
    "search_query (key_f5 mem_ops music_fs demo_searched) = []"
    using ok by blast+
  have f: "files (key_f5 mem_ops music_fs demo_searched) =
     [(''a.mp3'', False, 0, 0, 0), (''b.txt'', False, 0, 0, 0), (''c.MP3'', False, 0, 0, 0)]"
    using ok[unfolded srt] by blast
  have k: "search_mode (key_f5 (denying_ops [''m'', ''a.mp3'']) music_fs demo_searched) =
      search_mode demo_searched"
    "search_query (key_f5 (denying_ops [''m'', ''a.mp3'']) music_fs demo_searched) =
      search_query demo_searched"
    using no[THEN conjunct2, THEN conjunct2, THEN conjunct1, rule_format, OF disjI2[OF x]]
    by blast+
  have k1: "search_mode (key_f5 (denying_ops [''m'', ''a.mp3'']) music_fs demo_searched)"
    unfolding k by (rule m)
  have k2: "search_query (key_f5 (denying_ops [''m'', ''a.mp3'']) music_fs demo_searched) = ''c''"
    unfolding k by (rule q)
  have e: "files (key_f5 (denying_ops [''m'', ''a.mp3'']) music_fs demo_searched) = []"
    using no[THEN conjunct2, THEN conjunct2, THEN conjunct2, rule_format, OF conjI[OF d x]] .
  show ?thesis
    by (intro conjI d m l r f x k1 k2 e)
qed

text \<open>
  The claim as stated fails: after a search for \<open>c\<close>, F5 keeps the path but turns the
  search off, empties the query and shows all three entries again.
\<close>

theorem C5_f5_clears_search_counterexample:
  "search_mode demo_searched \<and> search_query demo_searched = ''c'' \<and>
   files demo_searched = [(''c.MP3'', False, 0, 0, 0)] \<and>
   current_path (key_f5 mem_ops music_fs demo_searched) = current_path demo_searched \<and>
   \<not> search_mode (key_f5 mem_ops music_fs demo_searched) \<and>
   search_query (key_f5 mem_ops music_fs demo_searched) = [] \<and>
   files (key_f5 mem_ops music_fs demo_searched) =
     [(''a.mp3'', False, 0, 0, 0), (''b.txt'', False, 0, 0, 0), (''c.MP3'', False, 0, 0, 0)]"
  by code_simp

section \<open>Directory listings are sorted\<close>

lemma key_le_dir: "entry_key x \<le> entry_key y \<Longrightarrow> fi_is_dir y \<Longrightarrow> fi_is_dir x"
  by (auto simp: entry_key_def)

lemma key_le_name:
  "entry_key x \<le> entry_key y \<Longrightarrow> fi_is_dir x = fi_is_dir y \<Longrightarrow>
   lower (fi_name x) \<le> lower (fi_name y)"
  by (auto simp: entry_key_def)

lemma sorted_dirs_first:
  "sorted (map entry_key xs) \<Longrightarrow> xs = filter fi_is_dir xs @ filter (\<lambda>x. \<not> fi_is_dir x) xs"
proof (induction xs)
  case Nil
  then show ?case by simp
next
  case (Cons x xs)
  then have le: "\<forall>y\<in>set xs. entry_key x \<le> entry_key y" and srt: "sorted (map entry_key xs)"
    by simp_all
  show ?case
  proof (cases "fi_is_dir x")
    case True
    then show ?thesis using Cons.IH[OF srt] by simp
  next
    case False
    with le have "\<forall>y\<in>set xs. \<not> fi_is_dir y"
      using key_le_dir by blast
    then have "filter fi_is_dir xs = []" "filter (\<lambda>x. \<not> fi_is_dir x) xs = xs"
      by (simp_all add: filter_empty_conv filter_id_conv)
    with False show ?thesis by simp
  qed
qed

lemma sorted_group_names:
  "sorted (map entry_key ys) \<Longrightarrow> \<forall>y\<in>set ys. fi_is_dir y = b \<Longrightarrow>
   sorted (map (\<lambda>x. lower (fi_name x)) ys)"
  by (induction ys) (auto intro: key_le_name)

lemma sorted_keys_ordered:
  assumes "sorted (map entry_key xs)"
  shows "listing_ordered xs"
proof -
  have a: "sorted (map entry_key (filter fi_is_dir xs))"
    using assms by (rule sorted_filter)
  have b: "sorted (map entry_key (filter (\<lambda>x. \<not> fi_is_dir x) xs))"
    using assms by (rule sorted_filter)
  have d: "sorted (map (\<lambda>x. lower (fi_name x)) (filter fi_is_dir xs))"
    by (rule sorted_group_names[OF a, of True]) simp
  have f: "sorted (map (\<lambda>x. lower (fi_name x)) (filter (\<lambda>x. \<not> fi_is_dir x) xs))"
    by (rule sorted_group_names[OF b, of False]) simp
  show ?thesis
    unfolding listing_ordered_def by (intro conjI sorted_dirs_first[OF assms] d f)
qed

text \<open>What each refresh stores, as a function of what the loop over the directory read.\<close>

lemma refresh_files_single:
  "\<not> dual_panel_mode s \<Longrightarrow>
   files (refresh_files ops fs s) =
     (case read_dir ops fs (show_hidden s) (current_path s) of
        (entries, None) \<Rightarrow> sort_key entry_key entries
      | (entries, Some e) \<Rightarrow> [])"
  by (auto simp: refresh_files_def show_message_def clear_overlay_fields_def Let_def
      split: prod.splits option.splits exc.splits)

lemma refresh_panel_files_at:
  "panel_idx < length (panel_files s) \<Longrightarrow>
   panel_files (refresh_panel_files ops fs panel_idx s) ! panel_idx =
     (case read_dir ops fs (show_hidden s) (panel_paths s ! panel_idx) of
        (entries, Some (OtherError e)) \<Rightarrow> []
      | (entries, r) \<Rightarrow> sort_key entry_key entries)"
  by (auto simp: refresh_panel_files_def Let_def split: prod.splits option.splits exc.splits)

lemma refresh_panel_files_other:
  "i \<noteq> panel_idx \<Longrightarrow>
   panel_files (refresh_panel_files ops fs panel_idx s) ! i = panel_files s ! i"
  by (auto simp: refresh_panel_files_def Let_def split: prod.splits option.splits exc.splits)

lemma refresh_files_dual_files:
  "dual_panel_mode s \<Longrightarrow>
   files (refresh_files ops fs s) =
     panel_files (refresh_panel_files ops fs 1 (refresh_panel_files ops fs 0 s)) ! active_panel s"
  by (simp add: refresh_files_def Let_def refresh_panel_files_keeps)

lemma refresh_files_dual_panel:
  "dual_panel_mode s \<Longrightarrow>
   panel_files (refresh_files ops fs s) =
     panel_files (refresh_panel_files ops fs 1 (refresh_panel_files ops fs 0 s))"
  by (simp add: refresh_files_def Let_def)

lemma refresh_files_dual:
  assumes "dual_panel_mode s" and "panels_ok s"
  shows "files (refresh_files ops fs s) =
     panel_files (refresh_panel_files ops fs (active_panel s) s) ! active_panel s"
proof -
  have a: "active_panel s = 0 \<or> active_panel s = 1"
    using assms(2) unfolding panels_ok_def by auto
  have l0: "0 < length (panel_files s)"
    using assms(2) unfolding panels_ok_def by simp
  let ?s1 = "refresh_panel_files ops fs 0 s"
  have l1: "1 < length (panel_files ?s1)" "1 < length (panel_files s)"
    using assms(2) unfolding panels_ok_def by (simp_all add: refresh_panel_files_keeps(5))
  note f = refresh_files_dual_files[OF assms(1), of ops fs]
  from a show ?thesis
  proof
    assume z: "active_panel s = 0"
    have "panel_files (refresh_panel_files ops fs 1 ?s1) ! 0 = panel_files ?s1 ! 0"
      by (rule refresh_panel_files_other) simp
    then show ?thesis
      unfolding f z by simp
  next
    assume o: "active_panel s = 1"
    show ?thesis
      unfolding f o refresh_panel_files_at[OF l1(1)] refresh_panel_files_at[OF l1(2)]
        refresh_panel_files_keeps(1,2) by (rule refl)
  qed
qed

lemma sorted_panel_listing:
  "sorted (map entry_key
     (case r of (entries, Some (OtherError e)) \<Rightarrow> [] | (entries, x) \<Rightarrow> sort_key entry_key entries))"
  by (auto split: prod.splits option.splits exc.splits)

lemma sorted_single_listing:
  "sorted (map entry_key
     (case r of (entries, None) \<Rightarrow> sort_key entry_key entries | (entries, Some e) \<Rightarrow> []))"
  by (auto split: prod.splits option.splits)

lemma refresh_panel_files_lengths:
  "length (panel_selected_index (refresh_panel_files ops fs i s)) = length (panel_selected_index s)"
  "length (panel_selected_files (refresh_panel_files ops fs i s)) = length (panel_selected_files s)"
  by (auto simp: refresh_panel_files_def Let_def split: prod.splits option.splits exc.splits)

lemma refresh_panel_files_panels_ok:
  "panels_ok s \<Longrightarrow> panels_ok (refresh_panel_files ops fs i s)"
  unfolding panels_ok_def
  by (simp add: refresh_panel_files_keeps refresh_panel_files_lengths)

lemma refresh_files_panels_ok:
  assumes "dual_panel_mode s" and "panels_ok s"
  shows "panels_ok (refresh_files ops fs s)"
proof -
  let ?s2 = "refresh_panel_files ops fs 1 (refresh_panel_files ops fs 0 s)"
  have ok: "panels_ok ?s2"
    by (intro refresh_panel_files_panels_ok assms(2))
  have "refresh_files ops fs s = ?s2\<lparr>files := panel_files ?s2 ! active_panel ?s2\<rparr>"
    using assms(1) by (simp add: refresh_files_def Let_def)
  then show ?thesis using ok by (simp add: panels_ok_def)
qed

lemma refresh_panel_files_sorted:
  assumes "panel_idx < length (panel_files s)"
  shows "sorted (map entry_key (panel_files (refresh_panel_files ops fs panel_idx s) ! panel_idx))"
  unfolding refresh_panel_files_at[OF assms] by (rule sorted_panel_listing)

lemma refresh_files_sorted:
  assumes "\<not> dual_panel_mode s \<or> panels_ok s"
  shows "sorted (map entry_key (files (refresh_files ops fs s)))"
proof (cases "dual_panel_mode s")
  case True
  with assms have ok: "panels_ok s" by simp
  then have "active_panel s < length (panel_files s)"
    by (simp add: panels_ok_def)
  then show ?thesis
    unfolding refresh_files_dual[OF True ok] by (rule refresh_panel_files_sorted)
next
  case False
  show ?thesis
    unfolding refresh_files_single[OF False] by (rule sorted_single_listing)
qed

lemma refresh_files_again:
  assumes "\<not> dual_panel_mode s \<or> panels_ok s"
  shows "files (refresh_files ops fs (refresh_files ops fs s)) = files (refresh_files ops fs s)"
proof (cases "dual_panel_mode s")
  case True
  with assms have ok: "panels_ok s" by simp
  have d: "dual_panel_mode (refresh_files ops fs s)"
    using True by (simp add: refresh_files_keeps)
  have i: "active_panel s < length (panel_files s)"
    "active_panel s < length (panel_files (refresh_files ops fs s))"
    using ok refresh_files_panels_ok[OF True ok, of ops fs]
    by (simp_all add: panels_ok_def refresh_files_keeps)
  show ?thesis
    unfolding refresh_files_dual[OF d refresh_files_panels_ok[OF True ok]]
      refresh_files_dual[OF True ok] refresh_files_keeps
      refresh_panel_files_at[OF i(1)] refresh_panel_files_at[OF i(2)] refresh_files_keeps
    by (rule refl)
next
  case False
  then have d: "\<not> dual_panel_mode (refresh_files ops fs s)"
    by (simp add: refresh_files_keeps)
  show ?thesis
    unfolding refresh_files_single[OF d] refresh_files_single[OF False] refresh_files_keeps
    by (rule refl)
qed

lemma read_entry_name:
  "read_entry ops fs p n = Inr x \<Longrightarrow> fi_name x = n"
  by (auto simp: read_entry_def fi_name_def Let_def split: option.splits sum.splits prod.splits)

lemma collect_entries_names:
  "\<exists>rest. filter (\<lambda>n. hid \<or> \<not> startswith n ''.'') ns =
            map fi_name (fst (collect_entries ops fs hid p ns)) @ rest \<and>
          (snd (collect_entries ops fs hid p ns) = None \<longrightarrow> rest = [])"
proof (induction ns)
  case Nil
  then show ?case by simp
next
  case (Cons n ns)
  show ?case
  proof (cases "\<not> hid \<and> startswith n ''.''")
    case True
    then show ?thesis using Cons.IH by auto
  next
    case False
    show ?thesis
    proof (cases "read_entry ops fs p n")
      case (Inl e)
      then show ?thesis using False by auto
    next
      case (Inr x)
      obtain xs r where c: "collect_entries ops fs hid p ns = (xs, r)"
        by (cases "collect_entries ops fs hid p ns") auto
      have step: "collect_entries ops fs hid p (n # ns) = (x # xs, r)"
        using False Inr c by auto
      obtain rest where rest: "filter (\<lambda>n. hid \<or> \<not> startswith n ''.'') ns =
          map fi_name xs @ rest" "r = None \<longrightarrow> rest = []"
        using Cons.IH c by auto
      have "filter (\<lambda>n. hid \<or> \<not> startswith n ''.'') (n # ns) =
          map fi_name (x # xs) @ rest"
        using False rest(1) read_entry_name[OF Inr] by auto
      then show ?thesis
        unfolding step using rest(2) by auto
    qed
  qed
qed

text \<open>
  Claim C2. Every listing that \<open>refresh_files\<close> produces, in single-panel mode and in
  dual-panel mode (with the two panel slots of \<open>__init__\<close>), and every listing that
  \<open>refresh_panel_files\<close> stores for a panel, is sorted ascending by the key
  \<open>(not is_dir, name.lower())\<close>: all directories come before all files and each group
  is in case-insensitive name order. When the directory is read without an exception
  the listing is the stable sort of one entry for every enumerated name that is not
  hidden (every name when hidden files are shown), in the order of enumeration; a panel
  whose reading was cut short by a refused permission lists the entries read up to
  there. In dual-panel mode the working list is the list stored for the active panel.
  The listing depends on nothing but the path, \<open>show_hidden\<close> and the file system, so it
  is the same on every refresh of an unchanged directory.
\<close>

theorem C2_listing_sorted:
  "(\<not> dual_panel_mode s \<or> panels_ok s \<longrightarrow>
      sorted (map entry_key (files (refresh_files ops fs s))) \<and>
      listing_ordered (files (refresh_files ops fs s)) \<and>
      files (refresh_files ops fs (refresh_files ops fs s)) = files (refresh_files ops fs s)) \<and>
   (panel_idx < length (panel_files s) \<longrightarrow>
      sorted (map entry_key (panel_files (refresh_panel_files ops fs panel_idx s) ! panel_idx)) \<and>
      listing_ordered (panel_files (refresh_panel_files ops fs panel_idx s) ! panel_idx)) \<and>
   (\<not> dual_panel_mode s \<and> fs_iterdir ops fs (current_path s) = Listed ns \<and>
    collect_entries ops fs (show_hidden s) (current_path s) ns = (entries, None) \<longrightarrow>
      files (refresh_files ops fs s) = sort_key entry_key entries \<and>
      map fi_name entries = filter (\<lambda>n. show_hidden s \<or> \<not> startswith n ''.'') ns) \<and>
   (panel_idx < length (panel_files s) \<and>
    fs_iterdir ops fs (panel_paths s ! panel_idx) = Listed ns \<and>
    collect_entries ops fs (show_hidden s) (panel_paths s ! panel_idx) ns = (entries, r) \<and>
    (\<forall>e. r \<noteq> Some (OtherError e)) \<longrightarrow>
      panel_files (refresh_panel_files ops fs panel_idx s) ! panel_idx =
        sort_key entry_key entries \<and>
      (\<exists>rest. filter (\<lambda>n. show_hidden s \<or> \<not> startswith n ''.'') ns =
                 map fi_name entries @ rest \<and> (r = None \<longrightarrow> rest = []))) \<and>
   (dual_panel_mode s \<and> panels_ok s \<longrightarrow>
      files (refresh_files ops fs s) =
        panel_files (refresh_panel_files ops fs (active_panel s) s) ! active_panel s) \<and>
   (\<not> dual_panel_mode s \<and> \<not> dual_panel_mode t \<and> current_path t = current_path s \<and>
    show_hidden t = show_hidden s \<longrightarrow>
      files (refresh_files ops fs t) = files (refresh_files ops fs s))"
proof (intro conjI impI)
  assume a: "\<not> dual_panel_mode s \<or> panels_ok s"
  show srt: "sorted (map entry_key (files (refresh_files ops fs s)))"
    by (rule refresh_files_sorted[OF a])
  show "listing_ordered (files (refresh_files ops fs s))"
    by (rule sorted_keys_ordered[OF srt])
  show "files (refresh_files ops fs (refresh_files ops fs s)) = files (refresh_files ops fs s)"
    by (rule refresh_files_again[OF a])
next
  assume i: "panel_idx < length (panel_files s)"
  show srt: "sorted (map entry_key (panel_files (refresh_panel_files ops fs panel_idx s) ! panel_idx))"
    by (rule refresh_panel_files_sorted[OF i])
  show "listing_ordered (panel_files (refresh_panel_files ops fs panel_idx s) ! panel_idx)"
    by (rule sorted_keys_ordered[OF srt])
next
  assume l: "\<not> dual_panel_mode s \<and> fs_iterdir ops fs (current_path s) = Listed ns \<and>
    collect_entries ops fs (show_hidden s) (current_path s) ns = (entries, None)"
  then have rd: "read_dir ops fs (show_hidden s) (current_path s) = (entries, None)"
    by (simp add: read_dir_def)
  show "files (refresh_files ops fs s) = sort_key entry_key entries"
    using l refresh_files_single[of s ops fs] by (simp add: rd)
  show "map fi_name entries = filter (\<lambda>n. show_hidden s \<or> \<not> startswith n ''.'') ns"
    using l collect_entries_names[of "show_hidden s" ns ops fs "current_path s"] by auto
next
  assume l: "panel_idx < length (panel_files s) \<and>
    fs_iterdir ops fs (panel_paths s ! panel_idx) = Listed ns \<and>
    collect_entries ops fs (show_hidden s) (panel_paths s ! panel_idx) ns = (entries, r) \<and>
    (\<forall>e. r \<noteq> Some (OtherError e))"
  then have rd: "read_dir ops fs (show_hidden s) (panel_paths s ! panel_idx) = (entries, r)"
    by (simp add: read_dir_def)
  have i: "panel_idx < length (panel_files s)" using l by simp
  show "panel_files (refresh_panel_files ops fs panel_idx s) ! panel_idx =
      sort_key entry_key entries"
    unfolding refresh_panel_files_at[OF i] rd using l
    by (auto split: option.splits exc.splits)
  show "\<exists>rest. filter (\<lambda>n. show_hidden s \<or> \<not> startswith n ''.'') ns =
                 map fi_name entries @ rest \<and> (r = None \<longrightarrow> rest = [])"
    using l collect_entries_names[of "show_hidden s" ns ops fs "panel_paths s ! panel_idx"]
    by auto
next
  assume "dual_panel_mode s \<and> panels_ok s"
  then show "files (refresh_files ops fs s) =
        panel_files (refresh_panel_files ops fs (active_panel s) s) ! active_panel s"
    using refresh_files_dual[of s ops fs] by simp
next
  assume a: "\<not> dual_panel_mode s \<and> \<not> dual_panel_mode t \<and> current_path t = current_path s \<and>
    show_hidden t = show_hidden s"
  then have s: "\<not> dual_panel_mode s" and t: "\<not> dual_panel_mode t" by simp_all
  show "files (refresh_files ops fs t) = files (refresh_files ops fs s)"
    unfolding refresh_files_single[OF s] refresh_files_single[OF t] using a by simp
qed

theorem C2_listing_sorted_witness:
  "\<not> dual_panel_mode demo_unlisted \<and>
   fs_iterdir mem_ops mixed_fs (current_path demo_unlisted) =
     Listed [''b.txt'', ''Z'', ''.hidden'', ''B.md'', ''a.txt'', ''a''] \<and>
   collect_entries mem_ops mixed_fs (show_hidden demo_unlisted) (current_path demo_unlisted)
     [''b.txt'', ''Z'', ''.hidden'', ''B.md'', ''a.txt'', ''a''] =
     ([(''b.txt'', False, 0, 0, 0), (''Z'', True, 0, 0, 0), (''B.md'', False, 0, 0, 0),
       (''a.txt'', False, 0, 0, 0), (''a'', True, 0, 0, 0)], None) \<and>
   files (refresh_files mem_ops mixed_fs demo_unlisted) =
     [(''a'', True, 0, 0, 0), (''Z'', True, 0, 0, 0), (''a.txt'', False, 0, 0, 0),
      (''B.md'', False, 0, 0, 0), (''b.txt'', False, 0, 0, 0)] \<and>
   sorted (map entry_key (files (refresh_files mem_ops mixed_fs demo_unlisted))) \<and>
   listing_ordered (files (refresh_files mem_ops mixed_fs demo_unlisted)) \<and>
   \<not> dual_panel_mode demo_umlaut \<and>
   map fi_name (files (refresh_files mem_ops umlaut_fs demo_umlaut)) =
     [[CHR 0xE4, CHR ''a''], [CHR 0xC4, CHR ''B'']] \<and>
   sorted (map entry_key (files (refresh_files mem_ops umlaut_fs demo_umlaut))) \<and>
   dual_panel_mode demo_dual \<and> panels_ok demo_dual \<and>
   sorted (map entry_key (files (refresh_files mem_ops demo_fs demo_dual))) \<and>
   files (refresh_files mem_ops demo_fs demo_dual) =
     panel_files (refresh_panel_files mem_ops demo_fs (active_panel demo_dual) demo_dual) !
       active_panel demo_dual \<and>
   1 < length (panel_files demo_dual) \<and>
   fs_iterdir (denying_ops [''home'', ''A'']) demo_fs (panel_paths demo_dual ! 1) =
     Listed [''b.txt'', ''A'', ''.hidden''] \<and>
   collect_entries (denying_ops [''home'', ''A'']) demo_fs (show_hidden demo_dual)
     (panel_paths demo_dual ! 1) [''b.txt'', ''A'', ''.hidden''] =
     ([(''b.txt'', False, 0, 0, 0)], Some (PermissionError ''Permission denied'')) \<and>
   panel_files (refresh_panel_files (denying_ops [''home'', ''A'']) demo_fs 1 demo_dual) ! 1 =
     [(''b.txt'', False, 0, 0, 0)] \<and>
   \<not> dual_panel_mode demo_cursor \<and> \<not> dual_panel_mode demo_home \<and>
   current_path demo_cursor = current_path demo_home \<and>
   show_hidden demo_cursor = show_hidden demo_home \<and>
   files (refresh_files mem_ops demo_fs demo_cursor) =
     files (refresh_files mem_ops demo_fs demo_home)"
proof -
  have d: "\<not> dual_panel_mode demo_unlisted"
    by code_simp
  have l: "fs_iterdir mem_ops mixed_fs (current_path demo_unlisted) =
     Listed [''b.txt'', ''Z'', ''.hidden'', ''B.md'', ''a.txt'', ''a'']"
    by code_simp
  have c: "collect_entries mem_ops mixed_fs (show_hidden demo_unlisted)
     (current_path demo_unlisted) [''b.txt'', ''Z'', ''.hidden'', ''B.md'', ''a.txt'', ''a''] =
     ([(''b.txt'', False, 0, 0, 0), (''Z'', True, 0, 0, 0), (''B.md'', False, 0, 0, 0),
       (''a.txt'', False, 0, 0, 0), (''a'', True, 0, 0, 0)], None)"
    by code_simp
  have srt: "sort_key entry_key
      [(''b.txt'', False, 0, 0, 0), (''Z'', True, 0, 0, 0), (''B.md'', False, 0, 0, 0),
       (''a.txt'', False, 0, 0, 0), (''a'', True, 0, 0, 0)] =
      [(''a'', True, 0, 0, 0), (''Z'', True, 0, 0, 0), (''a.txt'', False, 0, 0, 0),
       (''B.md'', False, 0, 0, 0), (''b.txt'', False, 0, 0, 0)]"
    by code_simp
  have du: "\<not> dual_panel_mode demo_umlaut"
    by code_simp
  have n: "map fi_name (files (refresh_files mem_ops umlaut_fs demo_umlaut)) =
     [[CHR 0xE4, CHR ''a''], [CHR 0xC4, CHR ''B'']]"
    by code_simp
  have dd: "dual_panel_mode demo_dual"
    by code_simp
  have ok: "panels_ok demo_dual"
    by code_simp
  have i: "1 < length (panel_files demo_dual)"
    by code_simp
  have pl: "fs_iterdir (denying_ops [''home'', ''A'']) demo_fs (panel_paths demo_dual ! 1) =
     Listed [''b.txt'', ''A'', ''.hidden'']"
    by code_simp
  have pc: "collect_entries (denying_ops [''home'', ''A'']) demo_fs (show_hidden demo_dual)
     (panel_paths demo_dual ! 1) [''b.txt'', ''A'', ''.hidden''] =
     ([(''b.txt'', False, 0, 0, 0)], Some (PermissionError ''Permission denied''))"
    by code_simp
  have ps: "sort_key entry_key [(''b.txt'', False, 0::int, 0::int, 0::int)] =
      [(''b.txt'', False, 0, 0, 0)]"
    by simp
  have t1: "\<not> dual_panel_mode demo_cursor" by code_simp
  have t2: "\<not> dual_panel_mode demo_home" by code_simp
  have t3: "current_path demo_cursor = current_path demo_home" by code_simp
  have t4: "show_hidden demo_cursor = show_hidden demo_home" by code_simp
  note single = C2_listing_sorted[where s = demo_unlisted and ops = mem_ops and fs = mixed_fs
      and ns = "[''b.txt'', ''Z'', ''.hidden'', ''B.md'', ''a.txt'', ''a'']"
      and entries = "[(''b.txt'', False, 0, 0, 0), (''Z'', True, 0, 0, 0),
        (''B.md'', False, 0, 0, 0), (''a.txt'', False, 0, 0, 0), (''a'', True, 0, 0, 0)]"
      and t = demo_unlisted]
  note uml = C2_listing_sorted[where s = demo_umlaut and ops = mem_ops and fs = umlaut_fs
      and t = demo_umlaut]
  note dual = C2_listing_sorted[where s = demo_dual and ops = mem_ops and fs = demo_fs
      and t = demo_dual]
  note part = C2_listing_sorted[where s = demo_dual and ops = "denying_ops [''home'', ''A'']"
      and fs = demo_fs and panel_idx = 1 and ns = "[''b.txt'', ''A'', ''.hidden'']"
      and entries = "[(''b.txt'', False, 0, 0, 0)]"
      and r = "Some (PermissionError ''Permission denied'')" and t = demo_dual]
  note same = C2_listing_sorted[where s = demo_home and t = demo_cursor and ops = mem_ops
      and fs = demo_fs]
  have s1: "sorted (map entry_key (files (refresh_files mem_ops mixed_fs demo_unlisted)))"
    and s2: "listing_ordered (files (refresh_files mem_ops mixed_fs demo_unlisted))"
    using single[THEN conjunct1, rule_format, OF disjI1[OF d]] by blast+
  have s3: "files (refresh_files mem_ops mixed_fs demo_unlisted) =
     [(''a'', True, 0, 0, 0), (''Z'', True, 0, 0, 0), (''a.txt'', False, 0, 0, 0),
      (''B.md'', False, 0, 0, 0), (''b.txt'', False, 0, 0, 0)]"
    using single[THEN conjunct2, THEN conjunct2, THEN conjunct1, rule_format,
        OF conjI[OF d conjI[OF l c]], THEN conjunct1]
    unfolding srt .
  have u1: "sorted (map entry_key (files (refresh_files mem_ops umlaut_fs demo_umlaut)))"
    using uml[THEN conjunct1, rule_format, OF disjI1[OF du]] by blast
  have d1: "sorted (map entry_key (files (refresh_files mem_ops demo_fs demo_dual)))"
    using dual[THEN conjunct1, rule_format, OF disjI2[OF ok]] by blast
  have d2: "files (refresh_files mem_ops demo_fs demo_dual) =
     panel_files (refresh_panel_files mem_ops demo_fs (active_panel demo_dual) demo_dual) !
       active_panel demo_dual"
    using dual[THEN conjunct2, THEN conjunct2, THEN conjunct2, THEN conjunct2, THEN conjunct1,
        rule_format, OF conjI[OF dd ok]] .
  have nr: "\<forall>e. Some (PermissionError ''Permission denied'') \<noteq> Some (OtherError e)"
    by simp
  have p1: "panel_files (refresh_panel_files (denying_ops [''home'', ''A'']) demo_fs 1 demo_dual) ! 1 =
     [(''b.txt'', False, 0, 0, 0)]"
    using part[THEN conjunct2, THEN conjunct2, THEN conjunct2, THEN conjunct1, rule_format,
        OF conjI[OF i conjI[OF pl conjI[OF pc nr]]], THEN conjunct1]
    unfolding ps .
  have e1: "files (refresh_files mem_ops demo_fs demo_cursor) =
     files (refresh_files mem_ops demo_fs demo_home)"
    using same[THEN conjunct2, THEN conjunct2, THEN conjunct2, THEN conjunct2, THEN conjunct2,
        rule_format, OF conjI[OF t2 conjI[OF t1 conjI[OF t3 t4]]]] .
  show ?thesis
    by (intro conjI d l c s3 s1 s2 du n u1 dd ok d1 d2 i pl pc p1 t1 t2 t3 t4 e1)
qed

section \<open>The inactive panel in dual-panel mode\<close>

lemma same_panel_trans:
  "same_panel i a b \<Longrightarrow> same_panel i b c \<Longrightarrow> same_panel i a c"
  by (simp add: same_panel_def)

lemma same_panel_files_update:
  "same_panel i a (b\<lparr>files := fl\<rparr>) = same_panel i a b"
  by (simp add: same_panel_def)

lemma same_panel_message:
  "same_panel i a (show_message m b) = same_panel i a b"
  by (simp add: same_panel_def show_message_def)

lemma refresh_panel_files_other_panel:
  "j \<noteq> i \<Longrightarrow> same_panel i s (refresh_panel_files ops fs j s)"
  by (auto simp: same_panel_def refresh_panel_files_def Let_def
        split: prod.splits option.splits exc.splits)

text \<open>What a refresh does to its own panel, when it completes and when it gives up.\<close>

lemma refresh_panel_files_completes:
  assumes "\<not> panel_read_fails ops fs i s"
    and "i < length (panel_files s)" and "i < length (panel_selected_index s)"
    and "i < length (panel_selected_files s)"
  shows "panel_files (refresh_panel_files ops fs i s) ! i =
           sort_key entry_key (fst (read_dir ops fs (show_hidden s) (panel_paths s ! i)))"
    and "panel_selected_index (refresh_panel_files ops fs i s) ! i =
           clamp_index (panel_selected_index s ! i)
             (length (fst (read_dir ops fs (show_hidden s) (panel_paths s ! i))))"
    and "panel_selected_files (refresh_panel_files ops fs i s) ! i = {}"
  using assms
  by (auto simp: panel_read_fails_def refresh_panel_files_def Let_def
        split: prod.splits option.splits exc.splits)

lemma refresh_panel_files_gives_up:
  assumes "panel_read_fails ops fs i s" and "i < length (panel_files s)"
  shows "panel_files (refresh_panel_files ops fs i s) ! i = []"
    and "panel_selected_index (refresh_panel_files ops fs i s) = panel_selected_index s"
    and "panel_selected_files (refresh_panel_files ops fs i s) = panel_selected_files s"
  using assms
  by (auto simp: panel_read_fails_def refresh_panel_files_def Let_def
        split: prod.splits option.splits exc.splits)

lemma refresh_panel_files_cong:
  assumes "same_panel i s t" and "show_hidden t = show_hidden s"
    and "panels_ok s" and "panels_ok t" and "i < 2"
  shows "same_panel i (refresh_panel_files ops fs i s) (refresh_panel_files ops fs i t)"
proof -
  have p: "panel_paths t ! i = panel_paths s ! i"
    and x: "panel_selected_index t ! i = panel_selected_index s ! i"
    and m: "panel_selected_files t ! i = panel_selected_files s ! i"
    using assms(1) by (simp_all add: same_panel_def)
  have l: "i < length (panel_files s)" "i < length (panel_selected_index s)"
    "i < length (panel_selected_files s)"
    and l': "i < length (panel_files t)" "i < length (panel_selected_index t)"
    "i < length (panel_selected_files t)"
    using assms(3,4,5) by (simp_all add: panels_ok_def)
  have f: "panel_read_fails ops fs i t = panel_read_fails ops fs i s"
    by (simp add: panel_read_fails_def p assms(2))
  show ?thesis
  proof (cases "panel_read_fails ops fs i s")
    case True
    with f have t: "panel_read_fails ops fs i t" by simp
    show ?thesis
      unfolding same_panel_def refresh_panel_files_keeps
        refresh_panel_files_gives_up[OF True l(1)] refresh_panel_files_gives_up[OF t l'(1)]
      using assms(1) x m by (simp add: same_panel_def)
  next
    case False
    with f have t: "\<not> panel_read_fails ops fs i t" by simp
    show ?thesis
      unfolding same_panel_def refresh_panel_files_keeps
        refresh_panel_files_completes[OF False l] refresh_panel_files_completes[OF t l']
      using assms(1) x by (simp add: same_panel_def p assms(2))
  qed
qed

lemma refresh_files_inactive:
  assumes "dual_panel_mode t" and "panels_ok t" and "panels_ok s" and "i < 2"
    and "same_panel i s t" and "show_hidden t = show_hidden s"
  shows "same_panel i (refresh_panel_files ops fs i s) (refresh_files ops fs t)"
proof -
  let ?t2 = "refresh_panel_files ops fs 1 (refresh_panel_files ops fs 0 t)"
  have both: "same_panel i (refresh_panel_files ops fs i t) ?t2"
  proof (cases "i = 0")
    case True
    show ?thesis unfolding True
      by (rule refresh_panel_files_other_panel) simp
  next
    case False
    with assms(4) have i: "i = 1" by simp
    have "same_panel 1 t (refresh_panel_files ops fs 0 t)"
      by (rule refresh_panel_files_other_panel) simp
    then show ?thesis unfolding i
      by (rule refresh_panel_files_cong)
         (simp_all add: refresh_panel_files_keeps refresh_panel_files_panels_ok assms(2))
  qed
  have "same_panel i (refresh_panel_files ops fs i s) (refresh_panel_files ops fs i t)"
    by (rule refresh_panel_files_cong[OF assms(5,6,3,2,4)])
  then have "same_panel i (refresh_panel_files ops fs i s) ?t2"
    using both by (rule same_panel_trans)
  moreover have "refresh_files ops fs t = ?t2\<lparr>files := panel_files ?t2 ! active_panel ?t2\<rparr>"
    using assms(1) by (simp add: refresh_files_def Let_def)
  ultimately show ?thesis
    by (simp add: same_panel_files_update)
qed

lemma clamp_index_fixed:
  "clamp_index x n = x \<longleftrightarrow> x < int n \<or> x = max 0 (int n - 1)"
  by (auto simp: clamp_index_def)

lemma refresh_panel_files_fixed:
  assumes "panels_ok s" and "i < 2"
  shows "same_panel i s (refresh_panel_files ops fs i s) \<longleftrightarrow>
     panel_files (refresh_panel_files ops fs i s) ! i = panel_files s ! i \<and>
     (\<not> panel_read_fails ops fs i s \<longrightarrow>
        (panel_selected_index s ! i < int (length (panel_files s ! i)) \<or>
         panel_selected_index s ! i = max 0 (int (length (panel_files s ! i)) - 1)) \<and>
        panel_selected_files s ! i = {})"
proof -
  have l: "i < length (panel_files s)" "i < length (panel_selected_index s)"
    "i < length (panel_selected_files s)"
    using assms(1,2) by (simp_all add: panels_ok_def)
  show ?thesis
  proof (cases "panel_read_fails ops fs i s")
    case True
    show ?thesis
      unfolding same_panel_def refresh_panel_files_keeps
        refresh_panel_files_gives_up(2,3)[OF True l(1)]
      using True by simp
  next
    case False
    note c = refresh_panel_files_completes[OF False l]
    have len: "length (fst (read_dir ops fs (show_hidden s) (panel_paths s ! i))) =
        length (panel_files (refresh_panel_files ops fs i s) ! i)"
      unfolding c(1) by simp
    show ?thesis
      unfolding same_panel_def refresh_panel_files_keeps c(2,3) len
      using False by (auto simp: clamp_index_fixed)
  qed
qed

lemma cursor_moves_inactive:
  "i \<noteq> active_panel s \<Longrightarrow> same_panel i s (navigate_up height s)"
  "i \<noteq> active_panel s \<Longrightarrow> same_panel i s (navigate_down height s)"
  by (simp_all add: same_panel_def navigate_up_def navigate_down_def adjust_scroll_def
        store_index_def Let_def)

lemma selection_inactive:
  "toggle_selection s = Inr s' \<Longrightarrow> same_panel i s s'"
  "same_panel i s (select_all s)"
  "same_panel i s (clear_selection s)"
  by (auto simp: same_panel_def toggle_selection_def select_all_def clear_selection_def
        show_message_def Let_def split: if_splits sum.splits)

lemma open_file_inactive:
  "open_file fs_launch s = Inr s' \<Longrightarrow> same_panel i s s'"
  by (auto simp: same_panel_def open_file_def show_message_def
        split: if_splits sum.splits option.splits)

lemma sync_to_panels_inactive:
  "i \<noteq> active_panel s \<Longrightarrow> same_panel i s (sync_to_panels s)"
  "show_hidden (sync_to_panels s) = show_hidden s"
  "dual_panel_mode (sync_to_panels s) = dual_panel_mode s"
  "active_panel (sync_to_panels s) = active_panel s"
  "panels_ok s \<Longrightarrow> panels_ok (sync_to_panels s)"
  by (simp_all add: same_panel_def sync_to_panels_def panels_ok_def)

lemma moved_inactive:
  assumes "dual_panel_mode s" and "panels_ok s" and "i \<noteq> active_panel s"
  shows "same_panel i s (store_top ((sync_to_panels s)\<lparr>current_path := p, selected_index := x,
           scroll_offset := y\<rparr>))"
    and "show_hidden (store_top ((sync_to_panels s)\<lparr>current_path := p, selected_index := x,
           scroll_offset := y\<rparr>)) = show_hidden s"
    and "dual_panel_mode (store_top ((sync_to_panels s)\<lparr>current_path := p, selected_index := x,
           scroll_offset := y\<rparr>))"
    and "panels_ok (store_top ((sync_to_panels s)\<lparr>current_path := p, selected_index := x,
           scroll_offset := y\<rparr>))"
  using assms
  by (simp_all add: same_panel_def sync_to_panels_def panels_ok_def store_top_def)

lemma stayed_inactive:
  assumes "dual_panel_mode s" and "panels_ok s" and "i \<noteq> active_panel s"
  shows "same_panel i s (store_top (sync_to_panels s))"
    and "show_hidden (store_top (sync_to_panels s)) = show_hidden s"
    and "dual_panel_mode (store_top (sync_to_panels s))"
    and "panels_ok (store_top (sync_to_panels s))"
  using assms
  by (simp_all add: same_panel_def sync_to_panels_def panels_ok_def store_top_def)

lemma navigate_left_inactive:
  assumes "dual_panel_mode s" and "panels_ok s" and "i \<noteq> active_panel s" and "i < 2"
  shows "same_panel i (refresh_panel_files ops fs i s) (navigate_left ops fs s)"
proof (cases "current_path s = []")
  case True
  then have "navigate_left ops fs s = refresh_files ops fs (store_top (sync_to_panels s))"
    using assms(1) by (simp add: navigate_left_def Let_def sync_to_panels_def)
  then show ?thesis
    using refresh_files_inactive[where ops = ops and fs = fs,
        OF stayed_inactive(3,4)[OF assms(1,2,3)] assms(2,4) stayed_inactive(1,2)[OF assms(1,2,3)]]
    by simp
next
  case False
  then have "navigate_left ops fs s =
      refresh_files ops fs (store_top ((sync_to_panels s)\<lparr>current_path := parent (current_path s),
        selected_index := 0, scroll_offset := 0\<rparr>))"
    using assms(1) by (simp add: navigate_left_def Let_def sync_to_panels_def)
  then show ?thesis
    using refresh_files_inactive[where ops = ops and fs = fs,
        OF moved_inactive(3,4)[OF assms(1,2,3)] assms(2,4) moved_inactive(1,2)[OF assms(1,2,3)]]
    by simp
qed

text \<open>
  \<open>navigate_right\<close> either changes directory and refreshes, or leaves the panel lists
  alone.
\<close>

lemma navigate_right_opens:
  assumes "dual_panel_mode s" and "selected_dir_opens ops fs s"
  shows "\<exists>selected_file.
           py_nth (files s) (selected_index s) = Inr selected_file \<and>
           navigate_right ops fs_launch fs s =
             Inr (refresh_files ops fs
                    (store_top ((sync_to_panels s)
                       \<lparr>current_path := joinpath (current_path s) (fi_name selected_file),
                        selected_index := 0, scroll_offset := 0\<rparr>)))"
proof -
  have ne: "files s \<noteq> []" using assms(2) by (simp add: selected_dir_opens_def)
  obtain sel where sel: "py_nth (files s) (selected_index s) = Inr sel"
    using assms(2) by (cases "py_nth (files s) (selected_index s)")
      (simp_all add: selected_dir_opens_def)
  have dir: "fi_is_dir sel" using assms(2) sel by (simp add: selected_dir_opens_def)
  obtain ns where ns: "fs_iterdir ops fs (joinpath (current_path s) (fi_name sel)) = Listed ns"
    using assms(2) sel
    by (cases "fs_iterdir ops fs (joinpath (current_path s) (fi_name sel))")
      (simp_all add: selected_dir_opens_def)
  have fl: "files (sync_to_panels s) = files s"
    "selected_index (sync_to_panels s) = selected_index s"
    "current_path (sync_to_panels s) = current_path s"
    by (simp_all add: sync_to_panels_def)
  have "navigate_right ops fs_launch fs s =
      Inr (refresh_files ops fs
             (store_top ((sync_to_panels s)
                \<lparr>current_path := joinpath (current_path s) (fi_name sel),
                 selected_index := 0, scroll_offset := 0\<rparr>)))"
    using assms(1) ne sel dir ns by (simp add: navigate_right_def Let_def fl)
  then show ?thesis using sel by blast
qed

lemma navigate_right_stays:
  assumes "dual_panel_mode s" and "\<not> selected_dir_opens ops fs s"
    and "navigate_right ops fs_launch fs s = Inr s'"
  shows "same_panel i s s' \<or> i = active_panel s"
proof (cases "i = active_panel s")
  case True
  then show ?thesis by simp
next
  case n: False
  have s1: "same_panel i s (sync_to_panels s)"
    by (rule sync_to_panels_inactive(1)[OF n])
  have fl: "files (sync_to_panels s) = files s"
    "selected_index (sync_to_panels s) = selected_index s"
    "current_path (sync_to_panels s) = current_path s"
    by (simp_all add: sync_to_panels_def)
  have "same_panel i s s'"
  proof (cases "files s = []")
    case True
    then have "s' = s" using assms(3) by (simp add: navigate_right_def)
    then show ?thesis by (simp add: same_panel_def)
  next
    case False
    obtain sel where sel: "py_nth (files s) (selected_index s) = Inr sel"
      using assms(3) assms(1) False
      by (cases "py_nth (files s) (selected_index s)")
        (simp_all add: navigate_right_def Let_def fl)
    show ?thesis
    proof (cases "fi_is_dir sel")
      case nodir: False
      then have "open_file fs_launch (sync_to_panels s) = Inr s'"
        using assms(3) assms(1) False sel by (simp add: navigate_right_def Let_def fl)
      then have "same_panel i (sync_to_panels s) s'"
        by (rule open_file_inactive)
      with s1 show ?thesis
        using same_panel_trans by blast
    next
      case isdir: True
      obtain e where e: "fs_iterdir ops fs (joinpath (current_path s) (fi_name sel)) = Raised e"
        using assms(2) False sel isdir
        by (cases "fs_iterdir ops fs (joinpath (current_path s) (fi_name sel))")
          (simp_all add: selected_dir_opens_def)
      then have "s' = show_message ''Permission denied'' (sync_to_panels s)"
        using assms(3) assms(1) False sel isdir
        by (cases e) (simp_all add: navigate_right_def Let_def fl)
      then show ?thesis
        using s1 by (simp add: same_panel_message)
    qed
  qed
  then show ?thesis ..
qed

lemma navigate_right_inactive:
  assumes "dual_panel_mode s" and "panels_ok s" and "i \<noteq> active_panel s" and "i < 2"
    and "navigate_right ops fs_launch fs s = Inr s'"
  shows "if selected_dir_opens ops fs s then same_panel i (refresh_panel_files ops fs i s) s'
         else same_panel i s s'"
proof (cases "selected_dir_opens ops fs s")
  case True
  obtain sel where "navigate_right ops fs_launch fs s =
      Inr (refresh_files ops fs
             (store_top ((sync_to_panels s)
                \<lparr>current_path := joinpath (current_path s) (fi_name sel),
                 selected_index := 0, scroll_offset := 0\<rparr>)))"
    using navigate_right_opens[OF assms(1) True, of fs_launch] by blast
  then have "s' = refresh_files ops fs
             (store_top ((sync_to_panels s)
                \<lparr>current_path := joinpath (current_path s) (fi_name sel),
                 selected_index := 0, scroll_offset := 0\<rparr>))"
    using assms(5) by simp
  then have "same_panel i (refresh_panel_files ops fs i s) s'"
    using refresh_files_inactive[where ops = ops and fs = fs,
        OF moved_inactive(3,4)[OF assms(1,2,3)] assms(2,4) moved_inactive(1,2)[OF assms(1,2,3)]]
    by simp
  then show ?thesis using True by simp
next
  case False
  then show ?thesis
    using navigate_right_stays[OF assms(1) False assms(5), of i] assms(3) by simp
qed

lemma enter_directory_inactive:
  assumes "dual_panel_mode s" and "panels_ok s" and "i \<noteq> active_panel s" and "i < 2"
    and "enter_directory ops fs_launch fs s = Inr s'"
  shows "if selected_dir_opens ops fs s then same_panel i (refresh_panel_files ops fs i s) s'
         else same_panel i s s'"
proof (cases "files s = []")
  case True
  then have "s' = s" using assms(5) by (simp add: enter_directory_def)
  then show ?thesis using True by (simp add: same_panel_def selected_dir_opens_def)
next
  case False
  obtain sel where sel: "py_nth (files s) (selected_index s) = Inr sel"
    using assms(5) False
    by (cases "py_nth (files s) (selected_index s)") (simp_all add: enter_directory_def)
  show ?thesis
  proof (cases "fi_is_dir sel")
    case True
    then have "navigate_right ops fs_launch fs s = Inr s'"
      using assms(5) False sel by (simp add: enter_directory_def)
    then show ?thesis
      by (rule navigate_right_inactive[OF assms(1,2,3,4)])
  next
    case nodir: False
    then have "open_file fs_launch s = Inr s'"
      using assms(5) False sel by (simp add: enter_directory_def)
    then have "same_panel i s s'"
      by (rule open_file_inactive)
    moreover have "\<not> selected_dir_opens ops fs s"
      using nodir sel by (simp add: selected_dir_opens_def)
    ultimately show ?thesis by simp
  qed
qed

lemma enter_directory_opens:
  assumes "selected_dir_opens ops fs s"
  shows "enter_directory ops fs_launch fs s = navigate_right ops fs_launch fs s"
proof -
  have ne: "files s \<noteq> []" using assms by (simp add: selected_dir_opens_def)
  obtain sel where sel: "py_nth (files s) (selected_index s) = Inr sel"
    using assms by (cases "py_nth (files s) (selected_index s)")
      (simp_all add: selected_dir_opens_def)
  have dir: "fi_is_dir sel" using assms sel by (simp add: selected_dir_opens_def)
  show ?thesis using ne sel dir by (simp add: enter_directory_def)
qed

text \<open>
  Claim C3, as the code has it. In dual-panel mode let \<open>i\<close> be the inactive panel.
  Moving the cursor (\<open>navigate_up\<close>, \<open>navigate_down\<close>) and changing the multi-selection
  (\<open>toggle_selection\<close>, \<open>select_all\<close>, \<open>clear_selection\<close>) leave everything stored for
  panel \<open>i\<close> as it was: path, entries, cursor, scroll offset and multi-selection.
  Directory navigation is different, because it ends in \<open>refresh_files\<close>, which in
  dual-panel mode refreshes both panels. After \<open>navigate_left\<close> panel \<open>i\<close> is exactly as
  \<open>refresh_panel_files\<close> for \<open>i\<close> alone would have left it. A \<open>navigate_right\<close> or
  \<open>enter_directory\<close> that returns leaves panel \<open>i\<close> in that same refreshed state when the
  entry under the cursor is a directory that can be listed, which is when the command
  does enter that directory, and leaves panel \<open>i\<close> untouched otherwise.
  The refresh of panel \<open>i\<close> keeps its path and scroll offset. When it completes, the
  entries become the sorted entries just read, the cursor is clamped to them and the
  multi-selection is emptied; when it gives up on an exception other than a refused
  permission, the entries become empty and cursor and multi-selection stay. So the
  refresh leaves panel \<open>i\<close> untouched if and only if it stores the entries the panel
  already had and, in case it completes, the cursor was below the number of entries or
  at \<open>max 0 (len - 1)\<close> and nothing was selected.
\<close>

theorem C3_inactive_panel_frame:
  assumes "dual_panel_mode s" and "panels_ok s" and "i = 1 - active_panel s"
  shows "same_panel i s (navigate_up height s) \<and>
         same_panel i s (navigate_down height s) \<and>
         (\<forall>s'. toggle_selection s = Inr s' \<longrightarrow> same_panel i s s') \<and>
         same_panel i s (select_all s) \<and>
         same_panel i s (clear_selection s) \<and>
         same_panel i (refresh_panel_files ops fs i s) (navigate_left ops fs s) \<and>
         (\<forall>s'. navigate_right ops fs_launch fs s = Inr s' \<longrightarrow>
            (if selected_dir_opens ops fs s
             then same_panel i (refresh_panel_files ops fs i s) s'
             else same_panel i s s')) \<and>
         (\<forall>s'. enter_directory ops fs_launch fs s = Inr s' \<longrightarrow>
            (if selected_dir_opens ops fs s
             then same_panel i (refresh_panel_files ops fs i s) s'
             else same_panel i s s')) \<and>
         (selected_dir_opens ops fs s \<longrightarrow>
            (\<exists>selected_file s'.
               py_nth (files s) (selected_index s) = Inr selected_file \<and>
               navigate_right ops fs_launch fs s = Inr s' \<and>
               enter_directory ops fs_launch fs s = Inr s' \<and>
               current_path s' = joinpath (current_path s) (fi_name selected_file))) \<and>
         panel_paths (refresh_panel_files ops fs i s) ! i = panel_paths s ! i \<and>
         panel_scroll_offset (refresh_panel_files ops fs i s) ! i = panel_scroll_offset s ! i \<and>
         (\<not> panel_read_fails ops fs i s \<longrightarrow>
            panel_files (refresh_panel_files ops fs i s) ! i =
              sort_key entry_key (fst (read_dir ops fs (show_hidden s) (panel_paths s ! i))) \<and>
            panel_selected_index (refresh_panel_files ops fs i s) ! i =
              clamp_index (panel_selected_index s ! i)
                (length (panel_files (refresh_panel_files ops fs i s) ! i)) \<and>
            panel_selected_files (refresh_panel_files ops fs i s) ! i = {}) \<and>
         (panel_read_fails ops fs i s \<longrightarrow>
            panel_files (refresh_panel_files ops fs i s) ! i = [] \<and>
            panel_selected_index (refresh_panel_files ops fs i s) ! i =
              panel_selected_index s ! i \<and>
            panel_selected_files (refresh_panel_files ops fs i s) ! i =
              panel_selected_files s ! i) \<and>
         (same_panel i s (refresh_panel_files ops fs i s) \<longleftrightarrow>
            panel_files (refresh_panel_files ops fs i s) ! i = panel_files s ! i \<and>
            (\<not> panel_read_fails ops fs i s \<longrightarrow>
               (panel_selected_index s ! i < int (length (panel_files s ! i)) \<or>
                panel_selected_index s ! i = max 0 (int (length (panel_files s ! i)) - 1)) \<and>
               panel_selected_files s ! i = {}))"
proof -
  have a: "active_panel s < 2"
    using assms(2) by (simp add: panels_ok_def)
  then have n: "i \<noteq> active_panel s" and i: "i < 2"
    using assms(3) by arith+
  have l: "i < length (panel_files s)" "i < length (panel_selected_index s)"
    "i < length (panel_selected_files s)"
    using assms(2) i by (simp_all add: panels_ok_def)
  have opens: "\<exists>selected_file s'.
      py_nth (files s) (selected_index s) = Inr selected_file \<and>
      navigate_right ops fs_launch fs s = Inr s' \<and>
      enter_directory ops fs_launch fs s = Inr s' \<and>
      current_path s' = joinpath (current_path s) (fi_name selected_file)"
    if o: "selected_dir_opens ops fs s"
  proof -
    obtain sel where sel: "py_nth (files s) (selected_index s) = Inr sel"
      and nr: "navigate_right ops fs_launch fs s =
        Inr (refresh_files ops fs
               (store_top ((sync_to_panels s)
                  \<lparr>current_path := joinpath (current_path s) (fi_name sel),
                   selected_index := 0, scroll_offset := 0\<rparr>)))"
      using navigate_right_opens[OF assms(1) o, of fs_launch] by blast
    let ?s' = "refresh_files ops fs
               (store_top ((sync_to_panels s)
                  \<lparr>current_path := joinpath (current_path s) (fi_name sel),
                   selected_index := 0, scroll_offset := 0\<rparr>))"
    have "current_path ?s' = joinpath (current_path s) (fi_name sel)"
      using assms(1) by (simp add: refresh_files_keeps store_top_def sync_to_panels_def)
    then show ?thesis
      using sel nr enter_directory_opens[OF o, of fs_launch]
      by (intro exI[of _ sel] exI[of _ ?s']) simp
  qed
  show ?thesis
  proof (intro conjI allI impI)
    show "same_panel i s (navigate_up height s)"
      by (rule cursor_moves_inactive(1)[OF n])
    show "same_panel i s (navigate_down height s)"
      by (rule cursor_moves_inactive(2)[OF n])
    show "same_panel i s s'" if "toggle_selection s = Inr s'" for s'
      using that by (rule selection_inactive(1))
    show "same_panel i s (select_all s)"
      by (rule selection_inactive(2))
    show "same_panel i s (clear_selection s)"
      by (rule selection_inactive(3))
    show "same_panel i (refresh_panel_files ops fs i s) (navigate_left ops fs s)"
      by (rule navigate_left_inactive[OF assms(1,2) n i])
    show "if selected_dir_opens ops fs s
          then same_panel i (refresh_panel_files ops fs i s) s' else same_panel i s s'"
      if "navigate_right ops fs_launch fs s = Inr s'" for s'
      using that by (rule navigate_right_inactive[OF assms(1,2) n i])
    show "if selected_dir_opens ops fs s
          then same_panel i (refresh_panel_files ops fs i s) s' else same_panel i s s'"
      if "enter_directory ops fs_launch fs s = Inr s'" for s'
      using that by (rule enter_directory_inactive[OF assms(1,2) n i])
    show "\<exists>selected_file s'.
        py_nth (files s) (selected_index s) = Inr selected_file \<and>
        navigate_right ops fs_launch fs s = Inr s' \<and>
        enter_directory ops fs_launch fs s = Inr s' \<and>
        current_path s' = joinpath (current_path s) (fi_name selected_file)"
      if "selected_dir_opens ops fs s"
      using that by (rule opens)
    show "panel_paths (refresh_panel_files ops fs i s) ! i = panel_paths s ! i"
      by (simp add: refresh_panel_files_keeps)
    show "panel_scroll_offset (refresh_panel_files ops fs i s) ! i = panel_scroll_offset s ! i"
      by (simp add: refresh_panel_files_keeps)
    show "panel_files (refresh_panel_files ops fs i s) ! i =
        sort_key entry_key (fst (read_dir ops fs (show_hidden s) (panel_paths s ! i)))"
      if "\<not> panel_read_fails ops fs i s"
      by (rule refresh_panel_files_completes(1)[OF that l])
    show "panel_selected_index (refresh_panel_files ops fs i s) ! i =
        clamp_index (panel_selected_index s ! i)
          (length (panel_files (refresh_panel_files ops fs i s) ! i))"
      if "\<not> panel_read_fails ops fs i s"
      unfolding refresh_panel_files_completes(1,2)[OF that l] by simp
    show "panel_selected_files (refresh_panel_files ops fs i s) ! i = {}"
      if "\<not> panel_read_fails ops fs i s"
      by (rule refresh_panel_files_completes(3)[OF that l])
    show "panel_files (refresh_panel_files ops fs i s) ! i = []"
      if "panel_read_fails ops fs i s"
      by (rule refresh_panel_files_gives_up(1)[OF that l(1)])
    show "panel_selected_index (refresh_panel_files ops fs i s) ! i = panel_selected_index s ! i"
      if "panel_read_fails ops fs i s"
      unfolding refresh_panel_files_gives_up(2)[OF that l(1)] by (rule refl)
    show "panel_selected_files (refresh_panel_files ops fs i s) ! i = panel_selected_files s ! i"
      if "panel_read_fails ops fs i s"
      unfolding refresh_panel_files_gives_up(3)[OF that l(1)] by (rule refl)
    show "same_panel i s (refresh_panel_files ops fs i s) \<longleftrightarrow>
        panel_files (refresh_panel_files ops fs i s) ! i = panel_files s ! i \<and>
        (\<not> panel_read_fails ops fs i s \<longrightarrow>
           (panel_selected_index s ! i < int (length (panel_files s ! i)) \<or>
            panel_selected_index s ! i = max 0 (int (length (panel_files s ! i)) - 1)) \<and>
           panel_selected_files s ! i = {})"
      by (rule refresh_panel_files_fixed[OF assms(2) i])
  qed
qed

theorem C3_inactive_panel_frame_witness:
  "dual_panel_mode demo_marked \<and> panels_ok demo_marked \<and> 0 = 1 - active_panel demo_marked \<and>
   same_panel 0 demo_marked (navigate_up 24 demo_marked) \<and>
   same_panel 0 demo_marked (navigate_down 24 demo_marked) \<and>
   \<not> isl (toggle_selection demo_marked) \<and>
   same_panel 0 demo_marked (projr (toggle_selection demo_marked)) \<and>
   same_panel 0 demo_marked (select_all demo_marked) \<and>
   same_panel 0 (refresh_panel_files mem_ops demo_fs 0 demo_marked)
     (navigate_left mem_ops demo_fs demo_marked) \<and>
   selected_dir_opens mem_ops demo_fs demo_marked \<and>
   \<not> isl (navigate_right mem_ops (\<lambda>p. None) demo_fs demo_marked) \<and>
   same_panel 0 (refresh_panel_files mem_ops demo_fs 0 demo_marked)
     (projr (navigate_right mem_ops (\<lambda>p. None) demo_fs demo_marked)) \<and>
   \<not> isl (enter_directory mem_ops (\<lambda>p. None) demo_fs demo_marked) \<and>
   same_panel 0 (refresh_panel_files mem_ops demo_fs 0 demo_marked)
     (projr (enter_directory mem_ops (\<lambda>p. None) demo_fs demo_marked)) \<and>
   \<not> panel_read_fails mem_ops demo_fs 0 demo_marked \<and>
   panel_selected_files (refresh_panel_files mem_ops demo_fs 0 demo_marked) ! 0 = {} \<and>
   panel_read_fails mem_ops music_fs 0 demo_marked \<and>
   panel_files (refresh_panel_files mem_ops music_fs 0 demo_marked) ! 0 = [] \<and>
   panel_selected_files (refresh_panel_files mem_ops music_fs 0 demo_marked) ! 0 =
     panel_selected_files demo_marked ! 0 \<and>
   dual_panel_mode (navigate_down 24 demo_marked) \<and> panels_ok (navigate_down 24 demo_marked) \<and>
   0 = 1 - active_panel (navigate_down 24 demo_marked) \<and>
   \<not> selected_dir_opens mem_ops demo_fs (navigate_down 24 demo_marked) \<and>
   \<not> isl (navigate_right mem_ops (\<lambda>p. None) demo_fs (navigate_down 24 demo_marked)) \<and>
   same_panel 0 (navigate_down 24 demo_marked)
     (projr (navigate_right mem_ops (\<lambda>p. None) demo_fs (navigate_down 24 demo_marked))) \<and>
   dual_panel_mode demo_dual \<and> panels_ok demo_dual \<and> 1 = 1 - active_panel demo_dual \<and>
   panel_files (refresh_panel_files mem_ops demo_fs 1 demo_dual) ! 1 = panel_files demo_dual ! 1 \<and>
   \<not> panel_read_fails mem_ops demo_fs 1 demo_dual \<and>
   panel_selected_index demo_dual ! 1 < int (length (panel_files demo_dual ! 1)) \<and>
   panel_selected_files demo_dual ! 1 = {} \<and>
   same_panel 1 demo_dual (refresh_panel_files mem_ops demo_fs 1 demo_dual)"
proof -
  have d: "dual_panel_mode demo_marked" by code_simp
  have ok: "panels_ok demo_marked" by code_simp
  have i: "0 = 1 - active_panel demo_marked" by code_simp
  have tg: "\<not> isl (toggle_selection demo_marked)" by code_simp
  have so: "selected_dir_opens mem_ops demo_fs demo_marked" by code_simp
  have nr: "\<not> isl (navigate_right mem_ops (\<lambda>p. None) demo_fs demo_marked)" by code_simp
  have en: "\<not> isl (enter_directory mem_ops (\<lambda>p. None) demo_fs demo_marked)" by code_simp
  have rf: "\<not> panel_read_fails mem_ops demo_fs 0 demo_marked" by code_simp
  have rg: "panel_read_fails mem_ops music_fs 0 demo_marked" by code_simp
  have d2: "dual_panel_mode (navigate_down 24 demo_marked)" by code_simp
  have ok2: "panels_ok (navigate_down 24 demo_marked)" by code_simp
  have i2: "0 = 1 - active_panel (navigate_down 24 demo_marked)" by code_simp
  have so2: "\<not> selected_dir_opens mem_ops demo_fs (navigate_down 24 demo_marked)" by code_simp
  have nr2: "\<not> isl (navigate_right mem_ops (\<lambda>p. None) demo_fs (navigate_down 24 demo_marked))"
    by code_simp
  have d': "dual_panel_mode demo_dual" by code_simp
  have ok': "panels_ok demo_dual" by code_simp
  have i': "1 = 1 - active_panel demo_dual" by code_simp
  have f: "panel_files (refresh_panel_files mem_ops demo_fs 1 demo_dual) ! 1 =
      panel_files demo_dual ! 1"
    by code_simp
  have rf': "\<not> panel_read_fails mem_ops demo_fs 1 demo_dual" by code_simp
  have x: "panel_selected_index demo_dual ! 1 < int (length (panel_files demo_dual ! 1))"
    by code_simp
  have m: "panel_selected_files demo_dual ! 1 = {}" by code_simp
  note marked = C3_inactive_panel_frame[where s = demo_marked and i = 0 and height = 24
      and ops = mem_ops and fs = demo_fs and fs_launch = "\<lambda>p. None", OF d ok i]
  note gone = C3_inactive_panel_frame[where s = demo_marked and i = 0
      and ops = mem_ops and fs = music_fs, OF d ok i]
  note onfile = C3_inactive_panel_frame[where s = "navigate_down 24 demo_marked" and i = 0
      and ops = mem_ops and fs = demo_fs and fs_launch = "\<lambda>p. None", OF d2 ok2 i2]
  note dual = C3_inactive_panel_frame[where s = demo_dual and i = 1 and ops = mem_ops
      and fs = demo_fs, OF d' ok' i']
  have tg': "toggle_selection demo_marked = Inr (projr (toggle_selection demo_marked))"
    using tg by simp
  have nr': "navigate_right mem_ops (\<lambda>p. None) demo_fs demo_marked =
      Inr (projr (navigate_right mem_ops (\<lambda>p. None) demo_fs demo_marked))"
    using nr by simp
  have en': "enter_directory mem_ops (\<lambda>p. None) demo_fs demo_marked =
      Inr (projr (enter_directory mem_ops (\<lambda>p. None) demo_fs demo_marked))"
    using en by simp
  have nr2': "navigate_right mem_ops (\<lambda>p. None) demo_fs (navigate_down 24 demo_marked) =
      Inr (projr (navigate_right mem_ops (\<lambda>p. None) demo_fs (navigate_down 24 demo_marked)))"
    using nr2 by simp
  have c1: "same_panel 0 demo_marked (navigate_up 24 demo_marked)"
    and c2: "same_panel 0 demo_marked (navigate_down 24 demo_marked)"
    and c3: "same_panel 0 demo_marked (select_all demo_marked)"
    and c4: "same_panel 0 (refresh_panel_files mem_ops demo_fs 0 demo_marked)
      (navigate_left mem_ops demo_fs demo_marked)"
    using marked by blast+
  have c5: "same_panel 0 demo_marked (projr (toggle_selection demo_marked))"
    using marked tg' by blast
  have c6: "same_panel 0 (refresh_panel_files mem_ops demo_fs 0 demo_marked)
      (projr (navigate_right mem_ops (\<lambda>p. None) demo_fs demo_marked))"
    using marked[THEN conjunct2, THEN conjunct2, THEN conjunct2, THEN conjunct2,
        THEN conjunct2, THEN conjunct2, THEN conjunct1, rule_format, OF nr'] so
    by simp
  have c7: "same_panel 0 (refresh_panel_files mem_ops demo_fs 0 demo_marked)
      (projr (enter_directory mem_ops (\<lambda>p. None) demo_fs demo_marked))"
    using marked[THEN conjunct2, THEN conjunct2, THEN conjunct2, THEN conjunct2,
        THEN conjunct2, THEN conjunct2, THEN conjunct2, THEN conjunct1, rule_format, OF en'] so
    by simp
  have c8: "panel_selected_files (refresh_panel_files mem_ops demo_fs 0 demo_marked) ! 0 = {}"
    using marked rf by blast
  have c9: "panel_files (refresh_panel_files mem_ops music_fs 0 demo_marked) ! 0 = []"
    and c10: "panel_selected_files (refresh_panel_files mem_ops music_fs 0 demo_marked) ! 0 =
      panel_selected_files demo_marked ! 0"
    using gone rg by blast+
  have c11: "same_panel 0 (navigate_down 24 demo_marked)
      (projr (navigate_right mem_ops (\<lambda>p. None) demo_fs (navigate_down 24 demo_marked)))"
    using onfile[THEN conjunct2, THEN conjunct2, THEN conjunct2, THEN conjunct2,
        THEN conjunct2, THEN conjunct2, THEN conjunct1, rule_format, OF nr2'] so2
    by simp
  have c12: "same_panel 1 demo_dual (refresh_panel_files mem_ops demo_fs 1 demo_dual)"
    using dual f x m by blast
  show ?thesis
    by (intro conjI d ok i c1 c2 tg c5 c3 c4 so nr c6 en c7 rf c8 rg c9 c10 d2 ok2 i2 so2 nr2
          c11 d' ok' i' f rf' x m c12)
qed

text \<open>
  The claim as stated fails for directory navigation: with the first entry marked in the
  left panel and the right panel active, going to the parent directory in the right
  panel empties the multi-selection of the left panel.
\<close>

theorem C3_navigation_refreshes_inactive_counterexample:
  "dual_panel_mode demo_marked \<and> active_panel demo_marked = 1 \<and>
   panel_selected_files demo_marked ! 0 = {0} \<and>
   panel_selected_files (navigate_left mem_ops demo_fs demo_marked) ! 0 = {} \<and>
   \<not> same_panel 0 demo_marked (navigate_left mem_ops demo_fs demo_marked)"
  by code_simp

section \<open>The cursor and the length of the list\<close>

text \<open>
  Cursor moves, overlays and a single-panel refresh that reads its directory without an
  exception keep the cursor inside the list; so does \<open>refresh_panel_files\<close> for its
  panel whenever it completes, also when the listing is refused for lack of permission.
\<close>

lemma index_ok_kept:
  "index_ok s \<Longrightarrow> index_ok (navigate_up height s)"
  "index_ok s \<Longrightarrow> index_ok (navigate_down height s)"
  "index_ok (apply_search_filter s)"
  "index_ok (clear_search_filter s)"
  "index_ok s \<Longrightarrow> \<not> dual_panel_mode s \<Longrightarrow>
   snd (read_dir ops fs (show_hidden s) (current_path s)) = None \<Longrightarrow>
   index_ok (refresh_files ops fs s)"
  by (auto simp: index_ok_def navigate_up_def navigate_down_def adjust_scroll_def store_index_def
        apply_search_filter_def clear_search_filter_def store_cleared_def show_message_def
        refresh_files_def clear_overlay_fields_def clamp_index_def Let_def
        split: prod.splits)

lemma refresh_panel_files_index_ok:
  assumes "0 \<le> panel_selected_index s ! i" and "i < length (panel_files s)"
    and "i < length (panel_selected_index s)" and "i < length (panel_selected_files s)"
    and "\<not> panel_read_fails ops fs i s"
  shows "panel_index_ok (refresh_panel_files ops fs i s) i"
  unfolding panel_index_ok_def refresh_panel_files_completes[OF assms(5,2,3,4)]
  using assms(1) by (auto simp: clamp_index_def)

text \<open>
  Claim C1. The cursor is to lie in \<open>[0, max 0 (len entries - 1)]\<close> after every cursor
  move, refresh, overlay and clearing of an overlay. The operations above keep it there,
  but a single-panel refresh whose listing is refused does not: in \<open>/home\<close> with two
  entries and the cursor on the second one, a refresh after \<open>/home\<close> has become
  unreadable empties the entries and returns before the cursor is clamped, so the cursor
  is still 1 over an empty list.
\<close>

theorem C1_index_after_denied_refresh:
  "\<not> dual_panel_mode demo_cursor \<and> index_ok demo_cursor \<and> selected_index demo_cursor = 1 \<and>
   fs_iterdir mem_ops locked_fs (current_path demo_cursor) =
     Raised (PermissionError ''Permission denied'') \<and>
   files (refresh_files mem_ops locked_fs demo_cursor) = [] \<and>
   selected_index (refresh_files mem_ops locked_fs demo_cursor) = 1 \<and>
   \<not> index_ok (refresh_files mem_ops locked_fs demo_cursor)"
  by code_simp

end
